theory Spec2Isabelle
  imports Main "HOL-Library.Word" "HOL-Library.Sublist" "HOL-Library.Char_ord"
    "HOL-Library.List_Lexorder" "HOL-Library.Product_Lexorder"
begin

unbundle bit_operations_syntax

chapter \<open>The program\<close>

section \<open>Python values\<close>

text \<open>
  A Python \<open>str\<close> is held as its UTF-8 encoding, a \<^typ>\<open>string\<close> (a list of bytes), so
  \<open>s.encode("utf-8")\<close> is the string itself; strings that have no UTF-8 encoding (lone
  surrogates) are not values of the model. \<open>len(s)\<close> counts code points, which in UTF-8
  are the bytes that are not continuation bytes (\<open>10xxxxxx\<close>).

  A timezone-aware \<open>datetime\<close> is held as its instant, an integer number of microseconds;
  Python compares aware datetimes by instant. The store writes a datetime as the RFC3339
  text \<open>format_timestamp\<close> gives and reads it back with \<open>parse_timestamp\<close>; the model
  keeps the datetime in the column. Where an SQL statement compares or orders a timestamp
  column it compares these texts byte by byte, as SQLite does for \<open>TEXT\<close>, and that is the
  order of \<^typ>\<open>string\<close> here.

  A Python \<open>float\<close> is a value of an unspecified type. What the standard library does with
  floats, datetimes and JSON text is a parameter of the model (\<open>pylib\<close>), not a
  definition: \<open>format_f\<close> is the format \<open>f"{x:f}"\<close>, \<open>isoformat\<close> is
  \<open>datetime.isoformat\<close>, \<open>json_loads_ok\<close> tells whether \<open>json.loads\<close> accepts a text, and
  \<open>isdigit\<close> is \<open>str.isdigit\<close>.
\<close>

type_synonym datetime = int

typedecl pyfloat

record pylib =
  format_f :: "pyfloat \<Rightarrow> string"
  isoformat :: "datetime \<Rightarrow> string"
  json_loads_ok :: "string \<Rightarrow> bool"
  isdigit :: "string \<Rightarrow> bool"

definition NUL :: char where
  "NUL = CHR 0x00"

definition py_len :: "string \<Rightarrow> nat" where
  "py_len s = length (filter (\<lambda>c. (of_char c :: nat) div 64 \<noteq> 2) s)"

fun dec_nat :: "nat \<Rightarrow> string" where
  "dec_nat n =
     (if n < 10 then [''0123456789'' ! n]
      else dec_nat (n div 10) @ [''0123456789'' ! (n mod 10)])"

declare dec_nat.simps [simp del]

text \<open>\<open>str(n)\<close> for a Python integer.\<close>

definition py_str :: "int \<Rightarrow> string" where
  "py_str n = (if n < 0 then CHR ''-'' # dec_nat (nat (- n)) else dec_nat (nat n))"

text \<open>\<open>d.get(key, "")\<close> on a dictionary of strings, held as an association list.\<close>

type_synonym pydict = "(string \<times> string) list"

definition get_str :: "pydict \<Rightarrow> string \<Rightarrow> string" where
  "get_str d k = (case map_of d k of None \<Rightarrow> [] | Some v \<Rightarrow> v)"

text \<open>The rewrite of a trailing UTC offset: \<open>if s.endswith("+00:00"): s = s[:-6] + "Z"\<close>.\<close>

definition z_suffix :: "string \<Rightarrow> string" where
  "z_suffix s = (if suffix ''+00:00'' s then take (length s - 6) s @ ''Z'' else s)"

text \<open>\<open>format_timestamp(dt)\<close> for a datetime: the text a timestamp column holds.\<close>

definition format_timestamp :: "pylib \<Rightarrow> datetime \<Rightarrow> string" where
  "format_timestamp L d = z_suffix (isoformat L d)"

text \<open>A sequence of statements that each update the same object, run in order.\<close>

definition run :: "('s \<Rightarrow> 's) list \<Rightarrow> 's \<Rightarrow> 's" where
  "run steps s = foldl (\<lambda>acc step. step acc) s steps"

definition for_each :: "'a list \<Rightarrow> ('a \<Rightarrow> 's \<Rightarrow> 's) \<Rightarrow> 's \<Rightarrow> 's" where
  "for_each xs body s = foldl (\<lambda>acc x. body x acc) s xs"

section \<open>hashlib.sha256\<close>

text \<open>
  SHA-256 as FIPS 180-4 defines it, on messages of fewer than \<open>2^61\<close> bytes (the length
  field holds the bit count modulo \<open>2^64\<close>). A hash object is the bytes it was fed:
  \<open>h.update(b)\<close> appends, \<open>h.hexdigest()\<close> is the digest of everything fed, in lowercase
  hexadecimal.
\<close>

type_synonym w32 = "32 word"

definition K256 :: "w32 list" where
  "K256 =
    [1116352408, 1899447441, 3049323471, 3921009573, 961987163, 1508970993, 2453635748,
     2870763221, 3624381080, 310598401, 607225278, 1426881987, 1925078388, 2162078206,
     2614888103, 3248222580, 3835390401, 4022224774, 264347078, 604807628, 770255983,
     1249150122, 1555081692, 1996064986, 2554220882, 2821834349, 2952996808, 3210313671,
     3336571891, 3584528711, 113926993, 338241895, 666307205, 773529912, 1294757372,
     1396182291, 1695183700, 1986661051, 2177026350, 2456956037, 2730485921, 2820302411,
     3259730800, 3345764771, 3516065817, 3600352804, 4094571909, 275423344, 430227734,
     506948616, 659060556, 883997877, 958139571, 1322822218, 1537002063, 1747873779,
     1955562222, 2024104815, 2227730452, 2361852424, 2428436474, 2756734187, 3204031479,
     3329325298]"

definition rotr :: "nat \<Rightarrow> w32 \<Rightarrow> w32" where
  "rotr n x = drop_bit n x OR push_bit (32 - n) x"

definition small_sigma0 :: "w32 \<Rightarrow> w32" where
  "small_sigma0 x = rotr 7 x XOR rotr 18 x XOR drop_bit 3 x"

definition small_sigma1 :: "w32 \<Rightarrow> w32" where
  "small_sigma1 x = rotr 17 x XOR rotr 19 x XOR drop_bit 10 x"

definition big_sigma0 :: "w32 \<Rightarrow> w32" where
  "big_sigma0 x = rotr 2 x XOR rotr 13 x XOR rotr 22 x"

definition big_sigma1 :: "w32 \<Rightarrow> w32" where
  "big_sigma1 x = rotr 6 x XOR rotr 11 x XOR rotr 25 x"

definition sha_ch :: "w32 \<Rightarrow> w32 \<Rightarrow> w32 \<Rightarrow> w32" where
  "sha_ch x y z = (x AND y) XOR (NOT x AND z)"

definition sha_maj :: "w32 \<Rightarrow> w32 \<Rightarrow> w32 \<Rightarrow> w32" where
  "sha_maj x y z = (x AND y) XOR (x AND z) XOR (y AND z)"

fun be_words :: "string \<Rightarrow> w32 list" where
  "be_words (a # b # c # d # rest) =
     (push_bit 24 (of_char a) + push_bit 16 (of_char b) + push_bit 8 (of_char c) + of_char d)
       # be_words rest"
| "be_words _ = []"

fun schedule :: "nat \<Rightarrow> w32 list \<Rightarrow> w32 list" where
  "schedule 0 w = w"
| "schedule (Suc n) w =
     schedule n (w @ [small_sigma1 (w ! (length w - 2)) + w ! (length w - 7)
                      + small_sigma0 (w ! (length w - 15)) + w ! (length w - 16)])"

type_synonym sha_state = "w32 \<times> w32 \<times> w32 \<times> w32 \<times> w32 \<times> w32 \<times> w32 \<times> w32"

fun sha_round :: "sha_state \<Rightarrow> w32 \<times> w32 \<Rightarrow> sha_state" where
  "sha_round (a, b, c, d, e, f, g, h) (k, w) =
     (let t1 = h + big_sigma1 e + sha_ch e f g + k + w;
          t2 = big_sigma0 a + sha_maj a b c
      in (t1 + t2, a, b, c, d + t1, e, f, g))"

fun add_state :: "sha_state \<Rightarrow> sha_state \<Rightarrow> sha_state" where
  "add_state (a, b, c, d, e, f, g, h) (a', b', c', d', e', f', g', h') =
     (a + a', b + b', c + c', d + d', e + e', f + f', g + g', h + h')"

definition compress :: "sha_state \<Rightarrow> string \<Rightarrow> sha_state" where
  "compress s block = add_state s (foldl sha_round s (zip K256 (schedule 48 (be_words block))))"

definition length_bytes :: "64 word \<Rightarrow> string" where
  "length_bytes n = map (\<lambda>i. char_of (uint (drop_bit (8 * i) n))) (rev [0..<8])"

definition pad :: "string \<Rightarrow> string" where
  "pad m = m @ [char_of (128 :: int)]
             @ replicate ((119 - length m mod 64) mod 64) (char_of (0 :: int))
             @ length_bytes (8 * of_nat (length m))"

fun blocks :: "nat \<Rightarrow> string \<Rightarrow> string list" where
  "blocks 0 m = []"
| "blocks (Suc n) m = take 64 m # blocks n (drop 64 m)"

definition sha256_state :: "string \<Rightarrow> sha_state" where
  "sha256_state m =
     (let p = pad m
      in foldl compress
           (1779033703, 3144134277, 1013904242, 2773480762,
            1359893119, 2600822924, 528734635, 1541459225)
           (blocks (length p div 64) p))"

definition hexdigit :: "w32 \<Rightarrow> char" where
  "hexdigit w = ''0123456789abcdef'' ! unat (w AND 15)"

definition hex32 :: "w32 \<Rightarrow> string" where
  "hex32 w = map (\<lambda>i. hexdigit (drop_bit (4 * i) w)) (rev [0..<8])"

fun state_words :: "sha_state \<Rightarrow> w32 list" where
  "state_words (a, b, c, d, e, f, g, h) = [a, b, c, d, e, f, g, h]"

definition sha256_hexdigest :: "string \<Rightarrow> string" where
  "sha256_hexdigest m = concat (map hex32 (state_words (sha256_state m)))"

type_synonym hasher = string

definition h_update :: "hasher \<Rightarrow> string \<Rightarrow> hasher" where
  "h_update h bs = h @ bs"

definition hexdigest :: "hasher \<Rightarrow> string" where
  "hexdigest h = sha256_hexdigest h"


section \<open>models.py\<close>

abbreviation OPEN :: string where "OPEN \<equiv> ''open''"
abbreviation IN_PROGRESS :: string where "IN_PROGRESS \<equiv> ''in_progress''"
abbreviation BLOCKED :: string where "BLOCKED \<equiv> ''blocked''"
abbreviation DEFERRED :: string where "DEFERRED \<equiv> ''deferred''"
abbreviation CLOSED :: string where "CLOSED \<equiv> ''closed''"
abbreviation TOMBSTONE :: string where "TOMBSTONE \<equiv> ''tombstone''"
abbreviation PINNED :: string where "PINNED \<equiv> ''pinned''"
abbreviation HOOKED :: string where "HOOKED \<equiv> ''hooked''"

definition Status_is_valid :: "string \<Rightarrow> bool" where
  "Status_is_valid s =
     (s \<in> set [OPEN, IN_PROGRESS, BLOCKED, DEFERRED, CLOSED, TOMBSTONE, PINNED, HOOKED])"

abbreviation BUG :: string where "BUG \<equiv> ''bug''"
abbreviation FEATURE :: string where "FEATURE \<equiv> ''feature''"
abbreviation TASK :: string where "TASK \<equiv> ''task''"
abbreviation EPIC :: string where "EPIC \<equiv> ''epic''"
abbreviation CHORE :: string where "CHORE \<equiv> ''chore''"

definition IssueType_is_valid :: "string \<Rightarrow> bool" where
  "IssueType_is_valid t = (t \<in> set [BUG, FEATURE, TASK, EPIC, CHORE])"

abbreviation BLOCKS :: string where "BLOCKS \<equiv> ''blocks''"
abbreviation PARENT_CHILD :: string where "PARENT_CHILD \<equiv> ''parent-child''"
abbreviation CONDITIONAL_BLOCKS :: string where "CONDITIONAL_BLOCKS \<equiv> ''conditional-blocks''"
abbreviation WAITS_FOR :: string where "WAITS_FOR \<equiv> ''waits-for''"

definition affects_ready_work :: "string \<Rightarrow> bool" where
  "affects_ready_work dep_type' =
     (dep_type' \<in> set [BLOCKS, PARENT_CHILD, CONDITIONAL_BLOCKS, WAITS_FOR])"

abbreviation EV_CREATED :: string where "EV_CREATED \<equiv> ''created''"
abbreviation EV_UPDATED :: string where "EV_UPDATED \<equiv> ''updated''"
abbreviation EV_STATUS_CHANGED :: string where "EV_STATUS_CHANGED \<equiv> ''status_changed''"
abbreviation EV_COMMENTED :: string where "EV_COMMENTED \<equiv> ''commented''"
abbreviation EV_CLOSED :: string where "EV_CLOSED \<equiv> ''closed''"
abbreviation EV_REOPENED :: string where "EV_REOPENED \<equiv> ''reopened''"
abbreviation EV_DEPENDENCY_ADDED :: string where "EV_DEPENDENCY_ADDED \<equiv> ''dependency_added''"
abbreviation EV_DEPENDENCY_REMOVED :: string where "EV_DEPENDENCY_REMOVED \<equiv> ''dependency_removed''"
abbreviation EV_LABEL_ADDED :: string where "EV_LABEL_ADDED \<equiv> ''label_added''"
abbreviation EV_LABEL_REMOVED :: string where "EV_LABEL_REMOVED \<equiv> ''label_removed''"

record dependency =
  issue_id :: string
  depends_on_id :: string
  dep_type :: string
  dep_created_at :: datetime
  dep_created_by :: string
  dep_metadata :: string
  thread_id :: string

record comment =
  comment_id :: int
  comment_issue_id :: string
  author :: string
  comment_text :: string
  comment_created_at :: datetime

record event =
  event_id :: int
  event_issue_id :: string
  event_type :: string
  event_actor :: string
  old_value :: "string option"
  new_value :: "string option"
  event_comment :: "string option"
  event_created_at :: datetime

text \<open>
  An entry of \<open>validations\<close> is a dictionary read with \<open>v.get\<close>; a field that is \<open>None\<close>
  here is a key the dictionary does not have. Its timestamp is a text or a datetime.
\<close>

datatype time_value = TimeText string | TimeObject datetime

record validation =
  validator :: "pydict option"
  outcome :: "string option"
  timestamp :: "time_value option"
  score :: "pyfloat option"

record issue =
  id' :: string
  content_hash :: string
  title :: string
  description :: string
  design :: string
  acceptance_criteria :: string
  notes' :: string
  spec_id :: string
  status :: string
  priority :: int
  issue_type :: string
  assignee :: string
  owner :: string
  estimated_minutes :: "int option"
  created_at :: datetime
  created_by :: string
  updated_at :: datetime
  closed_at :: "datetime option"
  close_reason :: string
  closed_by_session :: string
  due_at :: "datetime option"
  defer_until :: "datetime option"
  external_ref :: "string option"
  source_system :: string
  metadata :: string
  compaction_level :: int
  compacted_at :: "datetime option"
  compacted_at_commit :: "string option"
  original_size :: int
  labels :: "string list"
  dependencies :: "dependency list"
  comments :: "comment list"
  deleted_at :: "datetime option"
  deleted_by :: string
  delete_reason :: string
  original_type :: string
  sender :: string
  ephemeral :: bool
  wisp_type :: string
  pinned :: bool
  is_template :: bool
  bonded_from :: "pydict list"
  creator :: "pydict option"
  validations :: "validation list"
  quality_score :: "pyfloat option"
  crystallizes :: bool
  await_type :: string
  await_id :: string
  timeout :: int
  waiters :: "string list"
  holder :: string
  hook_bead :: string
  role_bead :: string
  agent_state :: string
  role_type :: string
  rig :: string
  last_activity :: "datetime option"
  mol_type :: string
  work_type :: string
  event_kind :: string
  actor :: string
  target :: string
  payload :: string

text \<open>\<open>Issue()\<close>: the defaults of the dataclass; \<open>now\<close> is what \<open>now_utc()\<close> returns.\<close>

definition Issue :: "datetime \<Rightarrow> issue" where
  "Issue now =
     \<lparr>id' = [], content_hash = [], title = [], description = [], design = [],
      acceptance_criteria = [], notes' = [], spec_id = [], status = OPEN, priority = 2,
      issue_type = TASK, assignee = [], owner = [], estimated_minutes = None,
      created_at = now, created_by = [], updated_at = now, closed_at = None,
      close_reason = [], closed_by_session = [], due_at = None, defer_until = None,
      external_ref = None, source_system = [], metadata = [], compaction_level = 0,
      compacted_at = None, compacted_at_commit = None, original_size = 0, labels = [],
      dependencies = [], comments = [], deleted_at = None, deleted_by = [],
      delete_reason = [], original_type = [], sender = [], ephemeral = False,
      wisp_type = [], pinned = False, is_template = False, bonded_from = [],
      creator = None, validations = [], quality_score = None, crystallizes = False,
      await_type = [], await_id = [], timeout = 0, waiters = [], holder = [],
      hook_bead = [], role_bead = [], agent_state = [], role_type = [], rig = [],
      last_activity = None, mol_type = [], work_type = [], event_kind = [], actor = [],
      target = [], payload = []\<rparr>"

subsection \<open>Issue.compute_content_hash\<close>

definition write_str :: "string \<Rightarrow> hasher \<Rightarrow> hasher" where
  "write_str s h = h_update (h_update h s) [NUL]"

definition write_int :: "int \<Rightarrow> hasher \<Rightarrow> hasher" where
  "write_int n h = h_update (h_update h (py_str n)) [NUL]"

definition write_str_optional :: "string option \<Rightarrow> hasher \<Rightarrow> hasher" where
  "write_str_optional s h =
     h_update (case s of None \<Rightarrow> h | Some v \<Rightarrow> h_update h v) [NUL]"

definition write_flag :: "bool \<Rightarrow> string \<Rightarrow> hasher \<Rightarrow> hasher" where
  "write_flag b label h = h_update (if b then h_update h label else h) [NUL]"

definition write_float_optional :: "pylib \<Rightarrow> pyfloat option \<Rightarrow> hasher \<Rightarrow> hasher" where
  "write_float_optional L f h =
     h_update (case f of None \<Rightarrow> h | Some x \<Rightarrow> h_update h (format_f L x)) [NUL]"

definition write_duration :: "int \<Rightarrow> hasher \<Rightarrow> hasher" where
  "write_duration d h = h_update (h_update h (py_str d)) [NUL]"

definition write_entity_ref :: "pydict option \<Rightarrow> hasher \<Rightarrow> hasher" where
  "write_entity_ref e h =
     (case e of
        None \<Rightarrow> h
      | Some d \<Rightarrow>
          run [write_str (get_str d ''name''), write_str (get_str d ''platform''),
               write_str (get_str d ''org''), write_str (get_str d ''id'')] h)"

text \<open>
  The text written for a validation's timestamp: \<open>ts = v.get("timestamp", "")\<close>, and a
  datetime is replaced by its \<open>isoformat()\<close> with a trailing \<open>+00:00\<close> turned into \<open>Z\<close>.
\<close>

definition timestamp_text :: "pylib \<Rightarrow> time_value option \<Rightarrow> string" where
  "timestamp_text L t =
     (case t of
        None \<Rightarrow> []
      | Some (TimeText s) \<Rightarrow> s
      | Some (TimeObject d) \<Rightarrow> z_suffix (isoformat L d))"

definition or_empty :: "string option \<Rightarrow> string" where
  "or_empty s = (case s of None \<Rightarrow> [] | Some v \<Rightarrow> v)"

definition compute_content_hash :: "pylib \<Rightarrow> issue \<Rightarrow> string" where
  "compute_content_hash L i =
     hexdigest (run
       [write_str (title i),
        write_str (description i),
        write_str (design i),
        write_str (acceptance_criteria i),
        write_str (notes' i),
        write_str (spec_id i),
        write_str (status i),
        write_int (priority i),
        write_str (issue_type i),
        write_str (assignee i),
        write_str (owner i),
        write_str (created_by i),
        write_str_optional (external_ref i),
        write_str (source_system i),
        write_flag (pinned i) ''pinned'',
        write_str (metadata i),
        write_flag (is_template i) ''template'',
        for_each (bonded_from i) (\<lambda>br.
          run [write_str (get_str br ''source_id''),
               write_str (get_str br ''bond_type''),
               write_str (get_str br ''bond_point'')]),
        write_entity_ref (creator i),
        for_each (validations i) (\<lambda>v.
          run [write_entity_ref (validator v),
               write_str (or_empty (outcome v)),
               write_str (timestamp_text L (timestamp v)),
               write_float_optional L (score v)]),
        write_float_optional L (quality_score i),
        write_flag (crystallizes i) ''crystallizes'',
        write_str (await_type i),
        write_str (await_id i),
        write_duration (timeout i),
        for_each (waiters i) write_str,
        write_str (holder i),
        write_str (hook_bead i),
        write_str (role_bead i),
        write_str (agent_state i),
        write_str (role_type i),
        write_str (rig i),
        write_str (mol_type i),
        write_str (work_type i),
        write_str (event_kind i),
        write_str (actor i),
        write_str (target i),
        write_str (payload i)] [])"

subsection \<open>The content hash as section 4.2 of the specification words it\<close>

text \<open>
  The writer primitives as byte strings, and the tagged, null-terminated concatenation of
  the fields in the order the specification lists them.
\<close>

definition spec_str :: "string \<Rightarrow> string" where
  "spec_str s = s @ [NUL]"

definition spec_str_optional :: "string option \<Rightarrow> string" where
  "spec_str_optional s = (case s of None \<Rightarrow> [NUL] | Some v \<Rightarrow> v @ [NUL])"

definition spec_int :: "int \<Rightarrow> string" where
  "spec_int n = py_str n @ [NUL]"

definition spec_flag :: "bool \<Rightarrow> string \<Rightarrow> string" where
  "spec_flag b label = (if b then label @ [NUL] else [NUL])"

definition spec_float_optional :: "pylib \<Rightarrow> pyfloat option \<Rightarrow> string" where
  "spec_float_optional L f = (case f of None \<Rightarrow> [NUL] | Some x \<Rightarrow> format_f L x @ [NUL])"

definition spec_entity_ref :: "pydict option \<Rightarrow> string" where
  "spec_entity_ref e =
     (case e of
        None \<Rightarrow> []
      | Some d \<Rightarrow>
          spec_str (get_str d ''name'') @ spec_str (get_str d ''platform'')
            @ spec_str (get_str d ''org'') @ spec_str (get_str d ''id''))"

definition spec_bonded :: "pydict \<Rightarrow> string" where
  "spec_bonded br =
     spec_str (get_str br ''source_id'') @ spec_str (get_str br ''bond_type'')
       @ spec_str (get_str br ''bond_point'')"

definition spec_validation :: "pylib \<Rightarrow> validation \<Rightarrow> string" where
  "spec_validation L v =
     spec_entity_ref (validator v) @ spec_str (or_empty (outcome v))
       @ spec_str (timestamp_text L (timestamp v)) @ spec_float_optional L (score v)"

definition spec_content_bytes :: "pylib \<Rightarrow> issue \<Rightarrow> string" where
  "spec_content_bytes L i =
     spec_str (title i) @ spec_str (description i) @ spec_str (design i)
     @ spec_str (acceptance_criteria i) @ spec_str (notes' i) @ spec_str (spec_id i)
     @ spec_str (status i) @ spec_int (priority i) @ spec_str (issue_type i)
     @ spec_str (assignee i) @ spec_str (owner i) @ spec_str (created_by i)
     @ spec_str_optional (external_ref i) @ spec_str (source_system i)
     @ spec_flag (pinned i) ''pinned'' @ spec_str (metadata i)
     @ spec_flag (is_template i) ''template''
     @ concat (map spec_bonded (bonded_from i))
     @ spec_entity_ref (creator i)
     @ concat (map (spec_validation L) (validations i))
     @ spec_float_optional L (quality_score i)
     @ spec_flag (crystallizes i) ''crystallizes''
     @ spec_str (await_type i) @ spec_str (await_id i) @ spec_int (timeout i)
     @ concat (map spec_str (waiters i))
     @ spec_str (holder i) @ spec_str (hook_bead i) @ spec_str (role_bead i)
     @ spec_str (agent_state i) @ spec_str (role_type i) @ spec_str (rig i)
     @ spec_str (mol_type i) @ spec_str (work_type i) @ spec_str (event_kind i)
     @ spec_str (actor i) @ spec_str (target i) @ spec_str (payload i)"

subsection \<open>Issue.validate and the other methods\<close>

definition is_tombstone :: "issue \<Rightarrow> bool" where
  "is_tombstone i = (status i = TOMBSTONE)"

definition validate :: "pylib \<Rightarrow> issue \<Rightarrow> string option" where
  "validate L i =
     (if title i = [] then Some ''title is required''
      else if py_len (title i) > 500 then
        Some (''title must be 500 characters or less (got ''
                @ py_str (int (py_len (title i))) @ '')'')
      else if priority i < 0 \<or> priority i > 4 then
        Some (''priority must be between 0 and 4 (got '' @ py_str (priority i) @ '')'')
      else if status i \<noteq> [] \<and> \<not> Status_is_valid (status i) then
        Some (''invalid status: '' @ status i)
      else if issue_type i \<noteq> [] \<and> \<not> IssueType_is_valid (issue_type i) then
        Some (''invalid issue type: '' @ issue_type i)
      else if (case estimated_minutes i of None \<Rightarrow> False | Some m \<Rightarrow> m < 0) then
        Some ''estimated_minutes cannot be negative''
      else if status i = CLOSED \<and> closed_at i = None then
        Some ''closed issues must have closed_at timestamp''
      else if status i \<noteq> CLOSED \<and> status i \<noteq> TOMBSTONE \<and> closed_at i \<noteq> None then
        Some ''non-closed issues cannot have closed_at timestamp''
      else if status i = TOMBSTONE \<and> deleted_at i = None then
        Some ''tombstone issues must have deleted_at timestamp''
      else if status i \<noteq> TOMBSTONE \<and> deleted_at i \<noteq> None then
        Some ''non-tombstone issues cannot have deleted_at timestamp''
      else if metadata i \<noteq> [] \<and> metadata i \<noteq> ''{}'' \<and> \<not> json_loads_ok L (metadata i) then
        Some ''metadata must be valid JSON''
      else None)"

definition set_defaults :: "issue \<Rightarrow> issue" where
  "set_defaults i =
     (let i1 = (if status i = [] then i\<lparr>status := OPEN\<rparr> else i)
      in if issue_type i1 = [] then i1\<lparr>issue_type := TASK\<rparr> else i1)"


section \<open>Exceptions\<close>

text \<open>
  An exception is a value. \<open>IntegrityError\<close> is \<open>sqlite3.IntegrityError\<close>; \<open>SystemExit\<close> is
  \<open>sys.exit(1)\<close> after the message was echoed to the error stream.
\<close>

datatype error =
    ValueError string
  | IntegrityError string
  | AttributeError string
  | TypeError string
  | OSError string
  | SystemExit string

section \<open>id\_gen.py\<close>

definition generate_child_id :: "string \<Rightarrow> int \<Rightarrow> string" where
  "generate_child_id parent_id child_number = parent_id @ ''.'' @ py_str child_number"

text \<open>\<open>s.split(sep)\<close> for a separator of one character.\<close>

fun split_on :: "char \<Rightarrow> string \<Rightarrow> string list" where
  "split_on sep [] = [[]]"
| "split_on sep (c # cs) =
     (let r = split_on sep cs
      in if c = sep then [] # r else (c # hd r) # tl r)"

text \<open>\<open>s.index(c)\<close> and \<open>s.rindex(c)\<close>, which raise \<open>ValueError\<close> when \<open>c\<close> is not in \<open>s\<close>.\<close>

fun index_of :: "char \<Rightarrow> string \<Rightarrow> nat option" where
  "index_of c [] = None"
| "index_of c (x # xs) = (if x = c then Some 0 else map_option Suc (index_of c xs))"

definition rindex_of :: "char \<Rightarrow> string \<Rightarrow> nat option" where
  "rindex_of c s = map_option (\<lambda>k. length s - 1 - k) (index_of c (rev s))"

text \<open>
  The loop of \<open>parse_hierarchical_id\<close> over \<open>parts[1:]\<close>: the depth it counts, or \<open>None\<close>
  when it returns early on a segment that is not all digits.
\<close>

fun count_digit_segments :: "pylib \<Rightarrow> string list \<Rightarrow> nat \<Rightarrow> nat option" where
  "count_digit_segments L [] depth = Some depth"
| "count_digit_segments L (p # ps) depth =
     (if isdigit L p then count_digit_segments L ps (depth + 1) else None)"

definition parse_hierarchical_id :: "pylib \<Rightarrow> string \<Rightarrow> error + (string \<times> string \<times> nat)" where
  "parse_hierarchical_id L issue_id' =
     (case count_digit_segments L (tl (split_on CHR ''.'' issue_id')) 0 of
        None \<Rightarrow> Inr (issue_id', [], 0)
      | Some depth \<Rightarrow>
          if depth = 0 then Inr (issue_id', [], 0)
          else (case index_of CHR ''.'' issue_id' of
                  None \<Rightarrow> Inl (ValueError ''substring not found'')
                | Some first_dot \<Rightarrow>
                    (case rindex_of CHR ''.'' issue_id' of
                       None \<Rightarrow> Inl (ValueError ''substring not found'')
                     | Some last_dot \<Rightarrow>
                         Inr (take first_dot issue_id', take last_dot issue_id', depth))))"

definition MAX_HIERARCHY_DEPTH :: int where
  "MAX_HIERARCHY_DEPTH = 3"

definition check_hierarchy_depth :: "string \<Rightarrow> int \<Rightarrow> string option" where
  "check_hierarchy_depth parent_id max_depth =
     (let max_depth' = (if max_depth < 1 then MAX_HIERARCHY_DEPTH else max_depth);
          depth = int (count_list parent_id CHR ''.'')
      in if depth \<ge> max_depth' then
           Some (''maximum hierarchy depth ('' @ py_str max_depth' @ '') exceeded for parent ''
                   @ parent_id)
         else None)"

section \<open>storage/schema.py and storage/sqlite\_store.py\<close>

text \<open>
  The database is a record of its tables, each a list of rows in insertion order. A row of
  table \<open>issues\<close> is held as an \<open>issue\<close> whose \<open>labels\<close>, \<open>dependencies\<close> and \<open>comments\<close>
  are empty (they live in their own tables); a \<open>NULL\<close> in a text column that the program
  reads with \<open>or ""\<close> is the empty string, and the JSON text of a \<open>*_json\<close> column is the
  value it encodes. The schema is the one \<open>SCHEMA\<close> creates, with foreign keys enforced.

  A store operation is a function from the database to an outcome and the database the
  connection sees afterwards: \<open>Inr\<close> a result, or \<open>Inl\<close> the exception that left the
  function, with the writes made before it was raised. \<open>now\<close> is what \<open>now_utc()\<close> returns
  during the operation.
\<close>

record store =
  tbl_issues :: "issue list"
  tbl_dependencies :: "dependency list"
  tbl_labels :: "(string \<times> string) list"
  tbl_comments :: "comment list"
  tbl_events :: "event list"
  tbl_dirty_issues :: "(string \<times> datetime) list"
  tbl_export_hashes :: "(string \<times> string) list"
  tbl_child_counters :: "(string \<times> int) list"
  tbl_config :: "(string \<times> string) list"
  tbl_metadata :: "(string \<times> string) list"
  seq_comments :: int
  seq_events :: int

definition empty_store :: store where
  "empty_store =
     \<lparr>tbl_issues = [], tbl_dependencies = [], tbl_labels = [], tbl_comments = [],
      tbl_events = [], tbl_dirty_issues = [], tbl_export_hashes = [],
      tbl_child_counters = [], tbl_config = [], tbl_metadata = [(''schema_version'', ''1'')],
      seq_comments = 0, seq_events = 0\<rparr>"

type_synonym 'a db = "store \<Rightarrow> (error + 'a) \<times> store"

fun do_all :: "unit db list \<Rightarrow> unit db" where
  "do_all [] s = (Inr (), s)"
| "do_all (m # ms) s = (case m s of (Inl e, s') \<Rightarrow> (Inl e, s') | (Inr _, s') \<Rightarrow> do_all ms s')"

declare do_all.simps [simp del]

definition issue_ids :: "store \<Rightarrow> string list" where
  "issue_ids s = map id' (tbl_issues s)"

subsection \<open>Constraints of the schema\<close>

text \<open>SQLite's \<open>length(X)\<close>: the characters of \<open>X\<close> before its first NUL.\<close>

definition sql_length :: "string \<Rightarrow> nat" where
  "sql_length x = py_len (takeWhile (\<lambda>c. c \<noteq> NUL) x)"

definition issues_check :: "issue \<Rightarrow> bool" where
  "issues_check r =
     (sql_length (title r) \<le> 500 \<and> priority r \<ge> 0 \<and> priority r \<le> 4 \<and>
      ((status r = CLOSED \<and> closed_at r \<noteq> None)
       \<or> status r = TOMBSTONE
       \<or> (status r \<noteq> CLOSED \<and> status r \<noteq> TOMBSTONE \<and> closed_at r = None)))"

subsection \<open>Rows and issues\<close>

text \<open>
  The values \<open>create_issue\<close> binds to the columns: \<open>issue.metadata or "{}"\<close>, and
  \<open>json.dumps(issue.creator) if issue.creator else ""\<close>, which \<open>_row_to_issue\<close> reads back
  as \<open>None\<close>.
\<close>

definition issue_to_row :: "issue \<Rightarrow> issue" where
  "issue_to_row i =
     i\<lparr>metadata := (if metadata i = [] then ''{}'' else metadata i),
       creator := (case creator i of None \<Rightarrow> None | Some d \<Rightarrow> if d = [] then None else Some d),
       labels := [], dependencies := [], comments := []\<rparr>"

definition row_to_issue :: "issue \<Rightarrow> issue" where
  "row_to_issue r =
     r\<lparr>status := (if status r = [] then OPEN else status r),
       issue_type := (if issue_type r = [] then TASK else issue_type r)\<rparr>"

text \<open>\<open>json.dumps(issue.validations)\<close> raises \<open>TypeError\<close> on a datetime.\<close>

definition json_serializable :: "validation list \<Rightarrow> bool" where
  "json_serializable vs =
     list_all (\<lambda>v. case timestamp v of Some (TimeObject d) \<Rightarrow> False | _ \<Rightarrow> True) vs"

subsection \<open>Statements\<close>

definition insert_issue :: "issue \<Rightarrow> unit db" where
  "insert_issue r s =
     (if \<not> issues_check r then (Inl (IntegrityError ''CHECK constraint failed''), s)
      else if id' r \<in> set (issue_ids s) then
        (Inl (IntegrityError ''UNIQUE constraint failed: issues.id''), s)
      else (Inr (), s\<lparr>tbl_issues := tbl_issues s @ [r]\<rparr>))"

text \<open>\<open>INSERT OR IGNORE INTO labels\<close>: a duplicate is ignored, a missing issue is an error.\<close>

definition insert_or_ignore_label :: "string \<Rightarrow> string \<Rightarrow> unit db" where
  "insert_or_ignore_label iid label s =
     (if (iid, label) \<in> set (tbl_labels s) then (Inr (), s)
      else if iid \<notin> set (issue_ids s) then
        (Inl (IntegrityError ''FOREIGN KEY constraint failed''), s)
      else (Inr (), s\<lparr>tbl_labels := tbl_labels s @ [(iid, label)]\<rparr>))"

text \<open>
  \<open>INSERT OR IGNORE INTO dependencies\<close>: an edge between the same two issues is ignored,
  an endpoint that is not an issue is an error.
\<close>

definition insert_or_ignore_dependency :: "dependency \<Rightarrow> unit db" where
  "insert_or_ignore_dependency d s =
     (if list_ex (\<lambda>e. issue_id e = issue_id d \<and> depends_on_id e = depends_on_id d)
           (tbl_dependencies s)
      then (Inr (), s)
      else if issue_id d \<notin> set (issue_ids s) \<or> depends_on_id d \<notin> set (issue_ids s) then
        (Inl (IntegrityError ''FOREIGN KEY constraint failed''), s)
      else (Inr (), s\<lparr>tbl_dependencies := tbl_dependencies s @ [d]\<rparr>))"

definition insert_comment :: "string \<Rightarrow> string \<Rightarrow> string \<Rightarrow> datetime \<Rightarrow> int db" where
  "insert_comment iid auth txt at s =
     (if iid \<notin> set (issue_ids s) then
        (Inl (IntegrityError ''FOREIGN KEY constraint failed''), s)
      else (Inr (seq_comments s + 1),
            s\<lparr>tbl_comments := tbl_comments s @
                 [\<lparr>comment_id = seq_comments s + 1, comment_issue_id = iid, author = auth,
                   comment_text = txt, comment_created_at = at\<rparr>],
               seq_comments := seq_comments s + 1\<rparr>))"

definition record_event ::
  "datetime \<Rightarrow> string \<Rightarrow> string \<Rightarrow> string \<Rightarrow> string option \<Rightarrow> string option
     \<Rightarrow> string option \<Rightarrow> unit db" where
  "record_event now iid ev_type who old new cmt s =
     (if iid \<notin> set (issue_ids s) then
        (Inl (IntegrityError ''FOREIGN KEY constraint failed''), s)
      else (Inr (),
            s\<lparr>tbl_events := tbl_events s @
                 [\<lparr>event_id = seq_events s + 1, event_issue_id = iid, event_type = ev_type,
                   event_actor = who, old_value = old, new_value = new, event_comment = cmt,
                   event_created_at = now\<rparr>],
               seq_events := seq_events s + 1\<rparr>))"

subsection \<open>Dirty tracking\<close>

definition mark_dirty :: "datetime \<Rightarrow> string \<Rightarrow> unit db" where
  "mark_dirty now iid s =
     (if iid \<in> set (map fst (tbl_dirty_issues s)) then
        (Inr (), s\<lparr>tbl_dirty_issues :=
                    map (\<lambda>(j, at). if j = iid then (j, now) else (j, at)) (tbl_dirty_issues s)\<rparr>)
      else if iid \<notin> set (issue_ids s) then
        (Inl (IntegrityError ''FOREIGN KEY constraint failed''), s)
      else (Inr (), s\<lparr>tbl_dirty_issues := tbl_dirty_issues s @ [(iid, now)]\<rparr>))"

text \<open>\<open>ORDER BY marked_at ASC\<close>, on the text of the column.\<close>

definition get_dirty_issues :: "pylib \<Rightarrow> store \<Rightarrow> string list" where
  "get_dirty_issues L s =
     map fst (sort_key (\<lambda>(j, at). format_timestamp L at) (tbl_dirty_issues s))"

definition clear_dirty :: "string list \<Rightarrow> store \<Rightarrow> store" where
  "clear_dirty issue_ids' s =
     (if issue_ids' = [] then s
      else s\<lparr>tbl_dirty_issues :=
               filter (\<lambda>(j, at). j \<notin> set issue_ids') (tbl_dirty_issues s)\<rparr>)"

subsection \<open>Reading an issue\<close>

definition get_labels :: "store \<Rightarrow> string \<Rightarrow> string list" where
  "get_labels s iid = sort (map snd (filter (\<lambda>(j, l). j = iid) (tbl_labels s)))"

definition get_dependency_records :: "store \<Rightarrow> string \<Rightarrow> dependency list" where
  "get_dependency_records s iid = filter (\<lambda>d. issue_id d = iid) (tbl_dependencies s)"

text \<open>\<open>ORDER BY created_at ASC\<close>, on the text of the column.\<close>

definition get_comments :: "pylib \<Rightarrow> store \<Rightarrow> string \<Rightarrow> comment list" where
  "get_comments L s iid =
     sort_key (\<lambda>c. format_timestamp L (comment_created_at c))
       (filter (\<lambda>c. comment_issue_id c = iid) (tbl_comments s))"

definition get_issue :: "pylib \<Rightarrow> store \<Rightarrow> string \<Rightarrow> issue option" where
  "get_issue L s iid =
     (case find (\<lambda>r. id' r = iid) (tbl_issues s) of
        None \<Rightarrow> None
      | Some r \<Rightarrow>
          Some ((row_to_issue r)
            \<lparr>labels := get_labels s iid,
             dependencies := get_dependency_records s iid,
             comments := get_comments L s iid\<rparr>))"


subsection \<open>Issue CRUD\<close>

text \<open>\<open>try: ... except sqlite3.IntegrityError: pass\<close>.\<close>

definition except_integrity_pass :: "unit db \<Rightarrow> unit db" where
  "except_integrity_pass m s =
     (case m s of
        (Inl (IntegrityError msg), s') \<Rightarrow> (Inr (), s')
      | other \<Rightarrow> other)"

definition discard :: "'a db \<Rightarrow> unit db" where
  "discard m s = (case m s of (Inl e, s') \<Rightarrow> (Inl e, s') | (Inr x, s') \<Rightarrow> (Inr (), s'))"

definition create_issue :: "pylib \<Rightarrow> datetime \<Rightarrow> issue \<Rightarrow> string \<Rightarrow> unit db" where
  "create_issue L now issue0 who s =
     (let i = issue0\<lparr>content_hash := compute_content_hash L issue0\<rparr>
      in if \<not> json_serializable (validations i) then
           (Inl (TypeError ''Object of type datetime is not JSON serializable''), s)
         else
           do_all
             ([insert_issue (issue_to_row i)]
              @ map (insert_or_ignore_label (id' i)) (labels i)
              @ map (\<lambda>d. except_integrity_pass (insert_or_ignore_dependency d)) (dependencies i)
              @ map (\<lambda>c. discard
                       (insert_comment
                          (if comment_issue_id c = [] then id' i else comment_issue_id c)
                          (author c) (comment_text c) (comment_created_at c)))
                  (comments i)
              @ [record_event now (id' i) EV_CREATED who None None None,
                 mark_dirty now (id' i)]) s)"

text \<open>
  The \<open>updates\<close> dictionary of \<open>update_issue\<close>, as the list of its items. The keys are the
  ones the importer and the \<open>update\<close> command pass, each with the type of value they
  pass for it; \<open>UAssignee None\<close> is the item \<open>"assignee": None\<close>.
\<close>

datatype update_entry =
    UTitle string
  | UDescription string
  | UDesign string
  | UAcceptanceCriteria string
  | UNotes string
  | UStatus string
  | UPriority int
  | UIssueType string
  | UAssignee "string option"
  | UClosedAt datetime
  | UCloseReason string
  | UPinned bool
  | UExternalRef string
  | UDueAt "datetime option"
  | UDeferUntil "datetime option"

text \<open>
  One item applied to the columns of a row (the \<open>SET\<close> clause) or to the attributes of
  the fetched issue (\<open>setattr\<close>); \<open>None\<close> for the assignee is \<open>NULL\<close> in the column.
\<close>

fun apply_update :: "update_entry \<Rightarrow> issue \<Rightarrow> issue" where
  "apply_update (UTitle v) i = i\<lparr>title := v\<rparr>"
| "apply_update (UDescription v) i = i\<lparr>description := v\<rparr>"
| "apply_update (UDesign v) i = i\<lparr>design := v\<rparr>"
| "apply_update (UAcceptanceCriteria v) i = i\<lparr>acceptance_criteria := v\<rparr>"
| "apply_update (UNotes v) i = i\<lparr>notes' := v\<rparr>"
| "apply_update (UStatus v) i = i\<lparr>status := v\<rparr>"
| "apply_update (UPriority v) i = i\<lparr>priority := v\<rparr>"
| "apply_update (UIssueType v) i = i\<lparr>issue_type := v\<rparr>"
| "apply_update (UAssignee v) i = i\<lparr>assignee := or_empty v\<rparr>"
| "apply_update (UClosedAt v) i = i\<lparr>closed_at := Some v\<rparr>"
| "apply_update (UCloseReason v) i = i\<lparr>close_reason := v\<rparr>"
| "apply_update (UPinned v) i = i\<lparr>pinned := v\<rparr>"
| "apply_update (UExternalRef v) i = i\<lparr>external_ref := Some v\<rparr>"
| "apply_update (UDueAt v) i = i\<lparr>due_at := v\<rparr>"
| "apply_update (UDeferUntil v) i = i\<lparr>defer_until := v\<rparr>"

definition apply_updates :: "update_entry list \<Rightarrow> issue \<Rightarrow> issue" where
  "apply_updates updates i = foldl (\<lambda>acc u. apply_update u acc) i updates"

text \<open>
  After the \<open>setattr\<close> loop the attribute \<open>assignee\<close> is \<open>None\<close> when the item for it is
  \<open>"assignee": None\<close>; \<open>compute_content_hash\<close> then calls \<open>None.encode\<close>.
\<close>

definition assignee_is_none :: "update_entry list \<Rightarrow> bool" where
  "assignee_is_none updates =
     foldl (\<lambda>acc u. case u of UAssignee a \<Rightarrow> a = None | _ \<Rightarrow> acc) False updates"

definition has_status :: "update_entry list \<Rightarrow> bool" where
  "has_status updates = list_ex (\<lambda>u. case u of UStatus v \<Rightarrow> True | _ \<Rightarrow> False) updates"

text \<open>\<open>UPDATE issues SET ... WHERE id = ?\<close>, refused when the new row fails the CHECKs.\<close>

definition update_row :: "string \<Rightarrow> (issue \<Rightarrow> issue) \<Rightarrow> unit db" where
  "update_row iid f s =
     (if list_ex (\<lambda>r. id' r = iid \<and> \<not> issues_check (f r)) (tbl_issues s) then
        (Inl (IntegrityError ''CHECK constraint failed''), s)
      else (Inr (), s\<lparr>tbl_issues := map (\<lambda>r. if id' r = iid then f r else r) (tbl_issues s)\<rparr>))"

definition update_issue ::
  "pylib \<Rightarrow> datetime \<Rightarrow> string \<Rightarrow> update_entry list \<Rightarrow> string \<Rightarrow> unit db" where
  "update_issue L now iid updates who s =
     (case get_issue L s iid of
        None \<Rightarrow> (Inl (ValueError (''Issue not found: '' @ iid)), s)
      | Some fetched \<Rightarrow>
          (let current = apply_updates updates fetched
           in if assignee_is_none updates then
                (Inl (AttributeError ''NoneType object has no attribute encode''), s)
              else
                do_all
                  [update_row iid
                     (\<lambda>r. (apply_updates updates r)
                        \<lparr>updated_at := now,
                         content_hash := compute_content_hash L current\<rparr>),
                   (if has_status updates then
                      record_event now iid EV_STATUS_CHANGED who
                        (Some (status current)) (Some (status current)) None
                    else record_event now iid EV_UPDATED who None None None),
                   mark_dirty now iid] s))"

definition close_issue :: "datetime \<Rightarrow> string \<Rightarrow> string \<Rightarrow> string \<Rightarrow> unit db" where
  "close_issue now iid reason who =
     do_all
       [update_row iid
          (\<lambda>r. r\<lparr>status := CLOSED, closed_at := Some now, close_reason := reason,
                 updated_at := now\<rparr>),
        record_event now iid EV_CLOSED who None None (Some reason),
        mark_dirty now iid]"

definition reopen_issue :: "datetime \<Rightarrow> string \<Rightarrow> string \<Rightarrow> unit db" where
  "reopen_issue now iid who =
     do_all
       [update_row iid
          (\<lambda>r. r\<lparr>status := OPEN, closed_at := None, close_reason := [], updated_at := now\<rparr>),
        record_event now iid EV_REOPENED who None None None,
        mark_dirty now iid]"

text \<open>
  \<open>DELETE FROM issues WHERE id = ?\<close>; every table that references the issue has
  \<open>ON DELETE CASCADE\<close>.
\<close>

definition delete_issue :: "string \<Rightarrow> unit db" where
  "delete_issue iid s =
     (Inr (),
      s\<lparr>tbl_issues := filter (\<lambda>r. id' r \<noteq> iid) (tbl_issues s),
        tbl_dependencies :=
          filter (\<lambda>d. issue_id d \<noteq> iid \<and> depends_on_id d \<noteq> iid) (tbl_dependencies s),
        tbl_labels := filter (\<lambda>(j, l). j \<noteq> iid) (tbl_labels s),
        tbl_comments := filter (\<lambda>c. comment_issue_id c \<noteq> iid) (tbl_comments s),
        tbl_events := filter (\<lambda>e. event_issue_id e \<noteq> iid) (tbl_events s),
        tbl_dirty_issues := filter (\<lambda>(j, at). j \<noteq> iid) (tbl_dirty_issues s),
        tbl_export_hashes := filter (\<lambda>(j, h). j \<noteq> iid) (tbl_export_hashes s),
        tbl_child_counters := filter (\<lambda>(j, n). j \<noteq> iid) (tbl_child_counters s)\<rparr>)"

subsection \<open>Queries\<close>

text \<open>
  \<open>search_issues("", IssueFilter(include_tombstones=...))\<close>, the call the importer and the
  exporter make: every row, tombstones on request, \<open>ORDER BY i.created_at DESC\<close> on the text
  of the column. Rows with the same text come latest inserted first: SQLite reads the index
  on \<open>created_at\<close> backwards.
\<close>

definition search_issues :: "pylib \<Rightarrow> bool \<Rightarrow> store \<Rightarrow> issue list" where
  "search_issues L include_tombstones s =
     map row_to_issue
       (rev (sort_key (\<lambda>r. format_timestamp L (created_at r))
          (filter (\<lambda>r. include_tombstones \<or> status r \<noteq> TOMBSTONE) (tbl_issues s))))"

text \<open>The \<open>NOT EXISTS\<close> subquery of \<open>get_ready_work\<close>, for the row \<open>r\<close>.\<close>

definition has_open_blocker :: "store \<Rightarrow> issue \<Rightarrow> bool" where
  "has_open_blocker s r =
     list_ex (\<lambda>d.
        list_ex (\<lambda>blocker.
           depends_on_id d = id' blocker
           \<and> issue_id d = id' r
           \<and> dep_type d \<in> set [BLOCKS, PARENT_CHILD, CONDITIONAL_BLOCKS, WAITS_FOR]
           \<and> status blocker \<in> set [OPEN, IN_PROGRESS, BLOCKED, DEFERRED, HOOKED])
          (tbl_issues s))
       (tbl_dependencies s)"

text \<open>
  \<open>get_ready_work()\<close>, the call without a filter; \<open>now\<close> is what \<open>now_utc()\<close> returns. The
  statement binds \<open>format_timestamp(now_utc())\<close> to its parameter, so \<open>i.defer_until <= ?\<close>
  compares two texts, and \<open>ORDER BY i.priority ASC, i.created_at ASC\<close> orders by the number
  and then by the text of \<open>created_at\<close>; rows equal in both stay in insertion order.
\<close>

definition get_ready_work :: "pylib \<Rightarrow> datetime \<Rightarrow> store \<Rightarrow> issue list" where
  "get_ready_work L now s =
     map row_to_issue
       (sort_key (\<lambda>r. (priority r, format_timestamp L (created_at r)))
          (filter (\<lambda>r.
              status r = OPEN
              \<and> \<not> ephemeral r
              \<and> \<not> pinned r
              \<and> (case defer_until r of
                    None \<Rightarrow> True
                  | Some t \<Rightarrow> format_timestamp L t \<le> format_timestamp L now)
              \<and> \<not> has_open_blocker s r)
            (tbl_issues s)))"

subsection \<open>Dependencies\<close>

text \<open>
  The recursive common table expression of \<open>has_cycle\<close>: \<open>rows\<close> are the ids the query
  holds at \<open>depth\<close>; while \<open>depth < 100\<close> each of them yields the targets of its outgoing
  edges at \<open>depth + 1\<close> (\<open>UNION ALL\<close> keeps duplicates).
\<close>

definition cte_step :: "dependency list \<Rightarrow> string list \<Rightarrow> string list" where
  "cte_step deps rows =
     concat (map (\<lambda>r. map depends_on_id (filter (\<lambda>d. issue_id d = r) deps)) rows)"

function cte_reachable :: "dependency list \<Rightarrow> nat \<Rightarrow> string list \<Rightarrow> string list" where
  "cte_reachable deps depth rows =
     (if rows = [] then []
      else rows @ (if depth < 100 then cte_reachable deps (Suc depth) (cte_step deps rows)
                   else []))"
  by pat_completeness auto
termination
  by (relation "measure (\<lambda>(deps, depth, rows). 100 - depth)") auto

declare cte_reachable.simps [simp del]

definition has_cycle :: "store \<Rightarrow> string \<Rightarrow> string \<Rightarrow> bool" where
  "has_cycle s iid depends_on =
     (if iid = depends_on then True
      else iid \<in> set (cte_reachable (tbl_dependencies s) 0 [depends_on]))"

definition cycle_message :: "string \<Rightarrow> string \<Rightarrow> string" where
  "cycle_message a b =
     ''Adding dependency '' @ a @ '' '' @ [CHR 0xE2, CHR 0x86, CHR 0x92] @ '' '' @ b
       @ '' would create a cycle''"

definition add_dependency :: "datetime \<Rightarrow> dependency \<Rightarrow> string \<Rightarrow> unit db" where
  "add_dependency now dep who s =
     (if has_cycle s (issue_id dep) (depends_on_id dep) then
        (Inl (ValueError (cycle_message (issue_id dep) (depends_on_id dep))), s)
      else
        do_all
          [insert_or_ignore_dependency
             (dep\<lparr>dep_created_by := (if dep_created_by dep = [] then who else dep_created_by dep)\<rparr>),
           record_event now (issue_id dep) EV_DEPENDENCY_ADDED who None
             (Some (depends_on_id dep)) None,
           mark_dirty now (issue_id dep),
           mark_dirty now (depends_on_id dep)] s)"

definition delete_dependency :: "string \<Rightarrow> string \<Rightarrow> unit db" where
  "delete_dependency iid depends_on s =
     (Inr (),
      s\<lparr>tbl_dependencies :=
          filter (\<lambda>d. \<not> (issue_id d = iid \<and> depends_on_id d = depends_on)) (tbl_dependencies s)\<rparr>)"

definition remove_dependency :: "datetime \<Rightarrow> string \<Rightarrow> string \<Rightarrow> string \<Rightarrow> unit db" where
  "remove_dependency now iid depends_on who =
     do_all
       [delete_dependency iid depends_on,
        record_event now iid EV_DEPENDENCY_REMOVED who (Some depends_on) None None,
        mark_dirty now iid,
        mark_dirty now depends_on]"

subsection \<open>Labels and comments\<close>

definition add_label :: "datetime \<Rightarrow> string \<Rightarrow> string \<Rightarrow> string \<Rightarrow> unit db" where
  "add_label now iid label who =
     do_all
       [insert_or_ignore_label iid label,
        record_event now iid EV_LABEL_ADDED who None (Some label) None,
        mark_dirty now iid]"

definition delete_label :: "string \<Rightarrow> string \<Rightarrow> unit db" where
  "delete_label iid label s =
     (Inr (), s\<lparr>tbl_labels := filter (\<lambda>p. p \<noteq> (iid, label)) (tbl_labels s)\<rparr>)"

definition remove_label :: "datetime \<Rightarrow> string \<Rightarrow> string \<Rightarrow> string \<Rightarrow> unit db" where
  "remove_label now iid label who =
     do_all
       [delete_label iid label,
        record_event now iid EV_LABEL_REMOVED who (Some label) None None,
        mark_dirty now iid]"

definition add_comment :: "datetime \<Rightarrow> string \<Rightarrow> string \<Rightarrow> string \<Rightarrow> int db" where
  "add_comment now iid auth txt s =
     (case insert_comment iid auth txt now s of
        (Inl e, s1) \<Rightarrow> (Inl e, s1)
      | (Inr rowid, s1) \<Rightarrow>
          (case do_all [record_event now iid EV_COMMENTED auth None (Some txt) None,
                        mark_dirty now iid] s1 of
             (Inl e, s2) \<Rightarrow> (Inl e, s2)
           | (Inr u, s2) \<Rightarrow> (Inr rowid, s2)))"

subsection \<open>Configuration and child counters\<close>

definition get_config :: "store \<Rightarrow> string \<Rightarrow> string option" where
  "get_config s k = map_of (tbl_config s) k"

definition next_child_number :: "string \<Rightarrow> int db" where
  "next_child_number parent_id s =
     (case map_of (tbl_child_counters s) parent_id of
        Some last_child \<Rightarrow>
          (Inr (last_child + 1),
           s\<lparr>tbl_child_counters :=
               map (\<lambda>(p, n). if p = parent_id then (p, last_child + 1) else (p, n))
                 (tbl_child_counters s)\<rparr>)
      | None \<Rightarrow>
          if parent_id \<notin> set (issue_ids s) then
            (Inl (IntegrityError ''FOREIGN KEY constraint failed''), s)
          else (Inr 1, s\<lparr>tbl_child_counters := tbl_child_counters s @ [(parent_id, 1)]\<rparr>))"

section \<open>commands/create.py\<close>

text \<open>
  The identifier \<open>create\<close> gives a child: \<open>parent_id\<close> is the parent as
  \<open>resolve_issue_id\<close> returned it. A refusal is echoed and the command exits with status 1.
\<close>

definition create_child_id :: "string \<Rightarrow> string db" where
  "create_child_id parent_id s =
     (case check_hierarchy_depth parent_id 0 of
        Some err \<Rightarrow> (Inl (SystemExit (''Error: '' @ err)), s)
      | None \<Rightarrow>
          (case next_child_number parent_id s of
             (Inl e, s') \<Rightarrow> (Inl e, s')
           | (Inr child_num, s') \<Rightarrow> (Inr (generate_child_id parent_id child_num), s')))"


section \<open>importer.py\<close>

record import_result =
  created :: int
  updated :: int
  unchanged :: int
  skipped :: int
  deleted :: int


text \<open>The \<open>updates\<close> dictionary the importer builds from an incoming record.\<close>

definition import_updates :: "issue \<Rightarrow> update_entry list" where
  "import_updates incoming =
     [UTitle (title incoming),
      UDescription (description incoming),
      UDesign (design incoming),
      UAcceptanceCriteria (acceptance_criteria incoming),
      UNotes (notes' incoming),
      UStatus (status incoming),
      UPriority (priority incoming),
      UIssueType (issue_type incoming),
      UAssignee (if assignee incoming = [] then None else Some (assignee incoming))]
     @ (case closed_at incoming of None \<Rightarrow> [] | Some t \<Rightarrow> [UClosedAt t])
     @ (if close_reason incoming \<noteq> [] then [UCloseReason (close_reason incoming)] else [])
     @ (if pinned incoming then [UPinned (pinned incoming)] else [])
     @ (case external_ref incoming of
          None \<Rightarrow> []
        | Some e \<Rightarrow> if e \<noteq> [] then [UExternalRef e] else [])"


text \<open>
  The body of the loop over the incoming issues. The loop carries the tally and the two
  sets \<open>seen_hashes\<close> and \<open>seen_ids\<close>; \<open>db_by_id\<close> and \<open>db_by_hash\<close> are the dictionaries built
  before the loop.
\<close>

type_synonym import_acc = "import_result \<times> string set \<times> string set"

definition import_one ::
  "pylib \<Rightarrow> datetime \<Rightarrow> (string \<Rightarrow> issue option) \<Rightarrow> (string \<Rightarrow> issue option) \<Rightarrow> issue
     \<Rightarrow> import_acc \<Rightarrow> import_acc db" where
  "import_one L now db_by_id db_by_hash incoming acc s =
     (case acc of (result, seen_hashes, seen_ids) \<Rightarrow>
       (let h = (if content_hash incoming = [] then compute_content_hash L incoming
                 else content_hash incoming)
        in if h \<in> seen_hashes then
             (Inr (result\<lparr>skipped := skipped result + 1\<rparr>, seen_hashes, seen_ids), s)
           else if id' incoming \<in> seen_ids then
             (Inr (result\<lparr>skipped := skipped result + 1\<rparr>, insert h seen_hashes, seen_ids), s)
           else
             (let seen_hashes' = insert h seen_hashes;
                  seen_ids' = insert (id' incoming) seen_ids;
                  existing_by_id = db_by_id (id' incoming)
              in if (case existing_by_id of None \<Rightarrow> False | Some e \<Rightarrow> status e = TOMBSTONE) then
                   (Inr (result\<lparr>skipped := skipped result + 1\<rparr>, seen_hashes', seen_ids'), s)
                 else
                   (case db_by_hash h of
                      Some existing_by_hash \<Rightarrow>
                        if id' existing_by_hash = id' incoming then
                          (Inr (result\<lparr>unchanged := unchanged result + 1\<rparr>,
                                seen_hashes', seen_ids'), s)
                        else
                          (Inr (result\<lparr>skipped := skipped result + 1\<rparr>,
                                seen_hashes', seen_ids'), s)
                    | None \<Rightarrow>
                        (case existing_by_id of
                           Some e \<Rightarrow>
                             if updated_at incoming \<le> updated_at e then
                               (Inr (result\<lparr>unchanged := unchanged result + 1\<rparr>,
                                     seen_hashes', seen_ids'), s)
                             else
                               (case update_issue L now (id' incoming) (import_updates incoming)
                                       ''import'' s of
                                  (Inl err, s') \<Rightarrow> (Inl err, s')
                                | (Inr u, s') \<Rightarrow>
                                    (Inr (result\<lparr>updated := updated result + 1\<rparr>,
                                          seen_hashes', seen_ids'), s'))
                         | None \<Rightarrow>
                             (case create_issue L now incoming ''import'' s of
                                (Inl err, s') \<Rightarrow> (Inl err, s')
                              | (Inr u, s') \<Rightarrow>
                                  (Inr (result\<lparr>created := created result + 1\<rparr>,
                                        seen_hashes', seen_ids'), s')))))))"





section \<open>export.py\<close>

text \<open>
  The files are a map from paths to contents. What the file system may refuse is a
  parameter: \<open>OpenFails\<close> (the temporary file cannot be opened), \<open>WriteFails k\<close> (the write
  of line \<open>k\<close> fails) and \<open>ReplaceFails\<close> (the rename fails). \<open>dumps\<close> is
  \<open>json.dumps(issue.to_dict(), ...)\<close>, which raises for an issue it cannot serialise.
\<close>

type_synonym files = "string \<Rightarrow> string option"

datatype io_fault = NoFault | OpenFails | WriteFails nat | ReplaceFails

text \<open>
  The loop that writes the lines: the text written so far and the count, or the exception
  that ended it with the text written before.
\<close>

fun write_lines ::
  "(issue \<Rightarrow> error + string) \<Rightarrow> io_fault \<Rightarrow> issue list \<Rightarrow> string \<Rightarrow> nat
     \<Rightarrow> (error + nat) \<times> string" where
  "write_lines dumps fault [] written count' = (Inr count', written)"
| "write_lines dumps fault (i # rest) written count' =
     (case dumps i of
        Inl err \<Rightarrow> (Inl err, written)
      | Inr line \<Rightarrow>
          if fault = WriteFails count' then (Inl (OSError ''write failed''), written)
          else write_lines dumps fault rest (written @ line @ [CHR 0x0A]) (count' + 1))"

definition enrich :: "pylib \<Rightarrow> store \<Rightarrow> issue list \<Rightarrow> issue list" where
  "enrich L s all_issues =
     concat (map (\<lambda>i. if ephemeral i then []
                       else (case get_issue L s (id' i) of None \<Rightarrow> [] | Some full \<Rightarrow> [full]))
               all_issues)"

definition flush_to_jsonl ::
  "pylib \<Rightarrow> (issue \<Rightarrow> error + string) \<Rightarrow> io_fault \<Rightarrow> string \<Rightarrow> store \<times> files
     \<Rightarrow> (error + nat) \<times> store \<times> files" where
  "flush_to_jsonl L dumps fault jsonl_path state =
     (case state of (s, fs) \<Rightarrow>
       (let all_issues = search_issues L True s;
            enriched = enrich L s all_issues;
            tmp_path = jsonl_path @ ''.tmp'';
            attempt =
              (if fault = OpenFails then (Inl (OSError ''open failed''), fs)
               else
                 (case write_lines dumps fault enriched [] 0 of
                    (Inl err, written) \<Rightarrow> (Inl err, fs(tmp_path \<mapsto> written))
                  | (Inr n, written) \<Rightarrow>
                      if fault = ReplaceFails then
                        (Inl (OSError ''replace failed''), fs(tmp_path \<mapsto> written))
                      else (Inr n, (fs(tmp_path := None))(jsonl_path \<mapsto> written))))
        in (case attempt of
              (Inl err, fs1) \<Rightarrow> (Inl err, s, fs1(tmp_path := None))
            | (Inr n, fs1) \<Rightarrow> (Inr n, clear_dirty (get_dirty_issues L s) s, fs1))))"

definition flush_dirty_to_jsonl ::
  "pylib \<Rightarrow> (issue \<Rightarrow> error + string) \<Rightarrow> io_fault \<Rightarrow> string \<Rightarrow> store \<times> files
     \<Rightarrow> (error + nat) \<times> store \<times> files" where
  "flush_dirty_to_jsonl L dumps fault jsonl_path state =
     (if get_dirty_issues L (fst state) = [] then (Inr 0, state)
      else flush_to_jsonl L dumps fault jsonl_path state)"

section \<open>Notions of the specification\<close>

text \<open>
  Hierarchy depth as section 4.1 words it: the count of dotted segments that are all
  digits, and 0 (the identifier is flat) when a segment is not.
\<close>

definition spec_depth :: "pylib \<Rightarrow> string \<Rightarrow> nat" where
  "spec_depth L x =
     (let segments = tl (split_on CHR ''.'' x)
      in if list_all (isdigit L) segments then length segments else 0)"

text \<open>\<open>str.isdigit\<close> on ASCII strings.\<close>

definition ascii_isdigit :: "string \<Rightarrow> bool" where
  "ascii_isdigit s = (s \<noteq> [] \<and> list_all (\<lambda>c. c \<in> set ''0123456789'') s)"

text \<open>
  The raw edge set of the dependency table, and reachability along it by a walk of at most
  \<open>n\<close> edges.
\<close>

definition edges :: "store \<Rightarrow> (string \<times> string) set" where
  "edges s = {(issue_id d, depends_on_id d) | d. d \<in> set (tbl_dependencies s)}"

definition reachable_within :: "nat \<Rightarrow> (string \<times> string) set \<Rightarrow> string \<Rightarrow> string \<Rightarrow> bool" where
  "reachable_within n E b a = (\<exists>k\<le>n. (b, a) \<in> E ^^ k)"

text \<open>A dependency edge with the defaults of the dataclass.\<close>

definition Dependency :: "string \<Rightarrow> string \<Rightarrow> string \<Rightarrow> dependency" where
  "Dependency a b t =
     \<lparr>issue_id = a, depends_on_id = b, dep_type = t, dep_created_at = 0,
      dep_created_by = [], dep_metadata = [], thread_id = []\<rparr>"

text \<open>
  Ready work as section 4.3 words it, for a row \<open>r\<close> of the store: status open, neither
  ephemeral nor pinned, not deferred beyond \<open>now\<close>, and no outgoing edge of a blocking type
  to an issue whose status is open, in\_progress, blocked, deferred or hooked.
\<close>

definition spec_ready :: "datetime \<Rightarrow> store \<Rightarrow> issue \<Rightarrow> bool" where
  "spec_ready now s r =
     (status r = OPEN
      \<and> ephemeral r \<noteq> True \<and> pinned r \<noteq> True
      \<and> (defer_until r = None \<or> (\<exists>t. defer_until r = Some t \<and> t \<le> now))
      \<and> \<not> (\<exists>d\<in>set (tbl_dependencies s). \<exists>blocker\<in>set (tbl_issues s).
             issue_id d = id' r \<and> affects_ready_work (dep_type d)
             \<and> depends_on_id d = id' blocker
             \<and> status blocker \<in> {OPEN, IN_PROGRESS, BLOCKED, DEFERRED, HOOKED}))"

text \<open>
  A store of three open issues of priority 2: \<open>p-x\<close> created at instant 0, \<open>p-y\<close> and \<open>p-d\<close>
  created ten microseconds later, \<open>p-d\<close> deferred until instant 0.
\<close>

definition whole_second_store :: store where
  "whole_second_store = empty_store
     \<lparr>tbl_issues :=
        [issue_to_row (Issue 0\<lparr>id' := ''p-x'', title := ''X''\<rparr>),
         issue_to_row (Issue 10\<lparr>id' := ''p-y'', title := ''Y''\<rparr>),
         issue_to_row (Issue 10\<lparr>id' := ''p-d'', title := ''D'', defer_until := Some 0\<rparr>)]\<rparr>"

text \<open>
  The stores the operations of \<open>SQLiteStorage\<close> reach from the empty database, whether they
  return or raise.
\<close>

inductive reachable :: "pylib \<Rightarrow> store \<Rightarrow> bool" for L :: pylib where
  r_init: "reachable L empty_store"
| r_create: "reachable L s \<Longrightarrow> reachable L (snd (create_issue L now i who s))"
| r_update: "reachable L s \<Longrightarrow> reachable L (snd (update_issue L now iid updates who s))"
| r_close: "reachable L s \<Longrightarrow> reachable L (snd (close_issue now iid reason who s))"
| r_reopen: "reachable L s \<Longrightarrow> reachable L (snd (reopen_issue now iid who s))"
| r_delete: "reachable L s \<Longrightarrow> reachable L (snd (delete_issue iid s))"
| r_add_dependency: "reachable L s \<Longrightarrow> reachable L (snd (add_dependency now dep who s))"
| r_remove_dependency:
    "reachable L s \<Longrightarrow> reachable L (snd (remove_dependency now iid depends_on who s))"
| r_add_label: "reachable L s \<Longrightarrow> reachable L (snd (add_label now iid label who s))"
| r_remove_label: "reachable L s \<Longrightarrow> reachable L (snd (remove_label now iid label who s))"
| r_add_comment: "reachable L s \<Longrightarrow> reachable L (snd (add_comment now iid auth body s))"
| r_clear_dirty: "reachable L s \<Longrightarrow> reachable L (clear_dirty ids s)"
| r_next_child: "reachable L s \<Longrightarrow> reachable L (snd (next_child_number iid s))"

definition rows_ok :: "store \<Rightarrow> bool" where
  "rows_ok s = list_all issues_check (tbl_issues s)"

definition keeps :: "(store \<Rightarrow> bool) \<Rightarrow> 'a db \<Rightarrow> bool" where
  "keeps P m = (\<forall>s. P s \<longrightarrow> P (snd (m s)))"

text \<open>An audit event for \<open>iid\<close> of type \<open>ev_type\<close> was appended between \<open>s\<close> and \<open>s'\<close>.\<close>

definition event_recorded :: "store \<Rightarrow> store \<Rightarrow> string \<Rightarrow> string \<Rightarrow> bool" where
  "event_recorded s s' iid ev_type =
     (\<exists>e. tbl_events s' = tbl_events s @ [e] \<and> event_issue_id e = iid \<and> event_type e = ev_type)"

text \<open>
  What \<open>get_issue\<close> reads back of an issue \<open>create_issue\<close> stored, apart from its labels,
  dependencies and comments.
\<close>

definition as_stored :: "pylib \<Rightarrow> issue \<Rightarrow> issue" where
  "as_stored L i = row_to_issue (issue_to_row (i\<lparr>content_hash := compute_content_hash L i\<rparr>))"

text \<open>SHA-256 does not collide on the two byte strings.\<close>

definition no_collision :: "string \<Rightarrow> string \<Rightarrow> bool" where
  "no_collision a b = (a \<noteq> b \<longrightarrow> sha256_hexdigest a \<noteq> sha256_hexdigest b)"

text \<open>A store of three issues, one edge and one label.\<close>

definition three_issue_store :: store where
  "three_issue_store = empty_store
     \<lparr>tbl_issues :=
        [issue_to_row (Issue 10\<lparr>id' := ''A'', title := ''A''\<rparr>),
         issue_to_row (Issue 20\<lparr>id' := ''B'', title := ''B''\<rparr>),
         issue_to_row (Issue 25\<lparr>id' := ''C'', title := ''C''\<rparr>)],
      tbl_dependencies := [Dependency ''B'' ''A'' BLOCKS],
      tbl_labels := [(''A'', ''urgent'')]\<rparr>"


text \<open>The issues \<open>flush_to_jsonl\<close> writes, in the order it writes them.\<close>

definition exported :: "pylib \<Rightarrow> store \<Rightarrow> issue list" where
  "exported L s = enrich L s (search_issues L True s)"

text \<open>
  A store with an open issue, an ephemeral one and a tombstone, all written at the same
  instant; two issues are dirty.
\<close>

definition export_store :: store where
  "export_store = empty_store
     \<lparr>tbl_issues :=
        [issue_to_row (Issue 10\<lparr>id' := ''A'', title := ''A''\<rparr>),
         issue_to_row (Issue 10\<lparr>id' := ''p-wisp-1'', title := ''W'', ephemeral := True\<rparr>),
         issue_to_row (Issue 10\<lparr>id' := ''T'', title := ''T'', status := TOMBSTONE,
                                deleted_at := Some 10\<rparr>)],
      tbl_dirty_issues := [(''A'', 10), (''T'', 10)]\<rparr>"



chapter \<open>Properties\<close>

section \<open>The content hash\<close>

lemma write_str_app: "write_str s h = h @ spec_str s"
  by (simp add: write_str_def h_update_def spec_str_def)

lemma write_int_app: "write_int n h = h @ spec_int n"
  by (simp add: write_int_def h_update_def spec_int_def)

lemma write_duration_app: "write_duration n h = h @ spec_int n"
  by (simp add: write_duration_def h_update_def spec_int_def)

lemma write_str_optional_app: "write_str_optional s h = h @ spec_str_optional s"
  by (simp add: write_str_optional_def h_update_def spec_str_optional_def split: option.split)

lemma write_flag_app: "write_flag b l h = h @ spec_flag b l"
  by (simp add: write_flag_def h_update_def spec_flag_def)

lemma write_float_optional_app: "write_float_optional L f h = h @ spec_float_optional L f"
  by (simp add: write_float_optional_def h_update_def spec_float_optional_def
      split: option.split)

lemma run_Nil: "run [] h = h"
  by (simp add: run_def)

lemma run_Cons: "run (f # fs) h = run fs (f h)"
  by (simp add: run_def)

lemma write_entity_ref_app: "write_entity_ref e h = h @ spec_entity_ref e"
  by (simp add: write_entity_ref_def spec_entity_ref_def run_Nil run_Cons write_str_app
      split: option.split)

lemma for_each_app:
  assumes "\<And>x h. body x h = h @ f x"
  shows "for_each xs body h = h @ concat (map f xs)"
  unfolding for_each_def by (induction xs arbitrary: h) (simp_all add: assms)

lemma bonded_app:
  "run [write_str (get_str br ''source_id''), write_str (get_str br ''bond_type''),
        write_str (get_str br ''bond_point'')] h = h @ spec_bonded br"
  by (simp add: run_Nil run_Cons write_str_app spec_bonded_def)

lemma validation_app:
  "run [write_entity_ref (validator v), write_str (or_empty (outcome v)),
        write_str (timestamp_text L (timestamp v)), write_float_optional L (score v)] h
   = h @ spec_validation L v"
  by (simp add: run_Nil run_Cons write_str_app write_entity_ref_app write_float_optional_app
      spec_validation_def)

lemma compute_content_hash_spec:
  "compute_content_hash L i = sha256_hexdigest (spec_content_bytes L i)"
  unfolding compute_content_hash_def hexdigest_def spec_content_bytes_def
  by (simp add: run_Nil run_Cons write_str_app write_int_app write_duration_app
      write_str_optional_app write_flag_app write_float_optional_app write_entity_ref_app
      for_each_app[OF bonded_app] for_each_app[OF validation_app] for_each_app[OF write_str_app])











section \<open>Hierarchical identifiers\<close>

lemma py_str_3: "py_str 3 = ''3''"
  by (simp add: py_str_def dec_nat.simps)

lemma split_on_ne: "split_on c s \<noteq> []"
  by (induction s) (auto simp: Let_def)

lemma length_split_on: "length (split_on c s) = Suc (count_list s c)"
  by (induction s) (auto simp: Let_def split_on_ne)

lemma count_digit_segments_all:
  "list_all (isdigit L) ps \<Longrightarrow> count_digit_segments L ps k = Some (k + length ps)"
  by (induction ps arbitrary: k) auto

lemma count_digit_segments_None:
  "\<not> list_all (isdigit L) ps \<Longrightarrow> count_digit_segments L ps k = None"
  by (induction ps arbitrary: k) auto

lemma index_of_None: "index_of c s = None \<longleftrightarrow> c \<notin> set s"
  by (induction s) auto

lemma count_list_pos: "0 < count_list s c \<longleftrightarrow> c \<in> set s"
  by (induction s) auto

lemma rindex_of_None: "rindex_of c s = None \<longleftrightarrow> c \<notin> set s"
  by (simp add: rindex_of_def index_of_None)

lemma parse_hierarchical_id_depth:
  "\<exists>root parent. parse_hierarchical_id L x = Inr (root, parent, spec_depth L x)"
proof (cases "list_all (isdigit L) (tl (split_on CHR ''.'' x))")
  case False
  then show ?thesis
    by (simp add: parse_hierarchical_id_def spec_depth_def count_digit_segments_None)
next
  case True
  let ?n = "length (tl (split_on CHR ''.'' x))"
  have c: "count_digit_segments L (tl (split_on CHR ''.'' x)) 0 = Some ?n"
    using count_digit_segments_all[OF True, of 0] by simp
  have n: "?n = count_list x CHR ''.''" by (simp add: length_split_on)
  show ?thesis
  proof (cases "?n = 0")
    case True
    with c \<open>list_all _ _\<close> show ?thesis
      by (simp add: parse_hierarchical_id_def spec_depth_def)
  next
    case False
    then have "0 < count_list x CHR ''.''" using n by linarith
    then have "CHR ''.'' \<in> set x" by (simp only: count_list_pos)
    then obtain a b where "index_of CHR ''.'' x = Some a" "rindex_of CHR ''.'' x = Some b"
      using index_of_None[of "CHR ''.''" x] rindex_of_None[of "CHR ''.''" x] by auto
    with c False True show ?thesis
      by (simp add: parse_hierarchical_id_def spec_depth_def)
  qed
qed

lemma check_hierarchy_depth_iff:
  "check_hierarchy_depth x 0 \<noteq> None \<longleftrightarrow> 3 \<le> count_list x CHR ''.''"
  by (simp add: check_hierarchy_depth_def MAX_HIERARCHY_DEPTH_def Let_def)

lemma create_child_id_refused_iff:
  "(\<exists>msg. fst (create_child_id x s) = Inl (SystemExit msg)) \<longleftrightarrow> 3 \<le> count_list x CHR ''.''"
proof (cases "check_hierarchy_depth x 0")
  case None
  then have "\<not> 3 \<le> count_list x CHR ''.''" using check_hierarchy_depth_iff[of x] by simp
  moreover have "\<not> (\<exists>msg. fst (create_child_id x s) = Inl (SystemExit msg))"
    using None
    by (auto simp: create_child_id_def next_child_number_def
        split: option.splits prod.splits sum.splits if_splits)
  ultimately show ?thesis by simp
next
  case (Some e)
  then have "3 \<le> count_list x CHR ''.''" using check_hierarchy_depth_iff[of x] by simp
  then show ?thesis using Some by (simp add: create_child_id_def)
qed

lemma create_child_id_refused_store:
  "3 \<le> count_list x CHR ''.'' \<Longrightarrow> snd (create_child_id x s) = s"
  using check_hierarchy_depth_iff[of x] by (auto simp: create_child_id_def)

text \<open>
  Claim C8, as amended. The depth \<open>parse_hierarchical_id\<close> returns is the count of dotted
  segments when each is all digits, and 0 otherwise. For a parent identifier whose dotted
  segments are all digits, \<open>create\<close> refuses a child (it echoes the depth error and exits,
  the store unchanged) exactly when the parent is at depth 3 or more.
\<close>

theorem hierarchy_depth_policy:
  "(\<exists>root parent. parse_hierarchical_id L x = Inr (root, parent, spec_depth L x))
   \<and> (list_all (isdigit L) (tl (split_on CHR ''.'' x)) \<longrightarrow>
        ((\<exists>msg. fst (create_child_id x s) = Inl (SystemExit msg)) \<longleftrightarrow> 3 \<le> spec_depth L x)
        \<and> (3 \<le> spec_depth L x \<longrightarrow> snd (create_child_id x s) = s))"
proof (intro conjI impI)
  show "\<exists>root parent. parse_hierarchical_id L x = Inr (root, parent, spec_depth L x)"
    by (rule parse_hierarchical_id_depth)
next
  assume a: "list_all (isdigit L) (tl (split_on CHR ''.'' x))"
  then have d: "spec_depth L x = count_list x CHR ''.''"
    by (simp add: spec_depth_def length_split_on)
  show "(\<exists>msg. fst (create_child_id x s) = Inl (SystemExit msg)) \<longleftrightarrow> 3 \<le> spec_depth L x"
    unfolding d by (rule create_child_id_refused_iff)
  assume "3 \<le> spec_depth L x"
  then show "snd (create_child_id x s) = s"
    unfolding d by (rule create_child_id_refused_store)
qed

theorem hierarchy_depth_policy_witness:
  "\<forall>f g j.
     parse_hierarchical_id \<lparr>format_f = f, isoformat = g, json_loads_ok = j, isdigit = ascii_isdigit\<rparr>
       ''p-abc.1.2.3'' = Inr (''p-abc'', ''p-abc.1.2'', 3)
     \<and> spec_depth \<lparr>format_f = f, isoformat = g, json_loads_ok = j, isdigit = ascii_isdigit\<rparr>
         ''p-abc.1.2.3'' = 3
     \<and> (\<exists>msg. fst (create_child_id ''p-abc.1.2.3'' empty_store) = Inl (SystemExit msg))
     \<and> snd (create_child_id ''p-abc.1.2.3'' empty_store) = empty_store"
proof (intro allI)
  fix f g j
  let ?L = "\<lparr>format_f = f, isoformat = g, json_loads_ok = j, isdigit = ascii_isdigit\<rparr>"
  have d: "spec_depth ?L ''p-abc.1.2.3'' = 3"
    by (simp add: spec_depth_def ascii_isdigit_def)
  have p: "parse_hierarchical_id ?L ''p-abc.1.2.3'' = Inr (''p-abc'', ''p-abc.1.2'', 3)"
    by (simp add: parse_hierarchical_id_def ascii_isdigit_def rindex_of_def)
  have a: "list_all (isdigit ?L) (tl (split_on CHR ''.'' ''p-abc.1.2.3''))"
    by (simp add: ascii_isdigit_def)
  from hierarchy_depth_policy[of ?L "''p-abc.1.2.3''" empty_store] a d
  have "(\<exists>msg. fst (create_child_id ''p-abc.1.2.3'' empty_store) = Inl (SystemExit msg))
     \<and> snd (create_child_id ''p-abc.1.2.3'' empty_store) = empty_store"
    by simp
  with d p show "parse_hierarchical_id ?L ''p-abc.1.2.3'' = Inr (''p-abc'', ''p-abc.1.2'', 3)
     \<and> spec_depth ?L ''p-abc.1.2.3'' = 3
     \<and> (\<exists>msg. fst (create_child_id ''p-abc.1.2.3'' empty_store) = Inl (SystemExit msg))
     \<and> snd (create_child_id ''p-abc.1.2.3'' empty_store) = empty_store"
    by blast
qed

text \<open>
  The claim as the specification states it fails: the parent \<open>p-abc.1.2\<close> is at depth 2, and
  its child \<open>p-abc.1.2.3\<close> is created.
\<close>

theorem child_of_depth_two_is_created:
  "(\<forall>f g j. spec_depth \<lparr>format_f = f, isoformat = g, json_loads_ok = j, isdigit = ascii_isdigit\<rparr>
         ''p-abc.1.2'' = 2)
   \<and> check_hierarchy_depth ''p-abc.1.2'' 0 = None
   \<and> fst (create_child_id ''p-abc.1.2''
        (empty_store\<lparr>tbl_issues := [Issue 0\<lparr>id' := ''p-abc.1.2''\<rparr>],
                     tbl_child_counters := [(''p-abc.1.2'', 2)]\<rparr>)) = Inr ''p-abc.1.2.3''"
  by (simp add: check_hierarchy_depth_def MAX_HIERARCHY_DEPTH_def create_child_id_def
      next_child_number_def empty_store_def generate_child_id_def py_str_3
      spec_depth_def ascii_isdigit_def)

section \<open>The cycle oracle\<close>

lemma set_cte_step:
  "set (cte_step deps rows) = {(issue_id d, depends_on_id d) | d. d \<in> set deps} `` set rows"
  by (auto simp: cte_step_def)

lemma within_unfold:
  "{y. \<exists>k\<le>Suc n. \<exists>x\<in>R. (x, y) \<in> E ^^ k} = R \<union> {y. \<exists>k\<le>n. \<exists>x\<in>E `` R. (x, y) \<in> E ^^ k}"
proof (intro set_eqI iffI)
  fix y assume "y \<in> {y. \<exists>k\<le>Suc n. \<exists>x\<in>R. (x, y) \<in> E ^^ k}"
  then obtain k x where k: "k \<le> Suc n" "x \<in> R" "(x, y) \<in> E ^^ k" by blast
  show "y \<in> R \<union> {y. \<exists>k\<le>n. \<exists>x\<in>E `` R. (x, y) \<in> E ^^ k}"
  proof (cases k)
    case 0
    with k show ?thesis by simp
  next
    case (Suc k')
    with k obtain z where "(x, z) \<in> E" "(z, y) \<in> E ^^ k'"
      by (metis relpow_Suc_D2)
    with k Suc show ?thesis by auto
  qed
next
  fix y assume "y \<in> R \<union> {y. \<exists>k\<le>n. \<exists>x\<in>E `` R. (x, y) \<in> E ^^ k}"
  then consider "y \<in> R" | k z x where "k \<le> n" "x \<in> R" "(x, z) \<in> E" "(z, y) \<in> E ^^ k"
    by blast
  then show "y \<in> {y. \<exists>k\<le>Suc n. \<exists>x\<in>R. (x, y) \<in> E ^^ k}"
  proof cases
    case 1
    then have "(y, y) \<in> E ^^ 0" by simp
    with 1 show ?thesis by blast
  next
    case 2
    then have "(x, y) \<in> E ^^ Suc k" by (meson relpow_Suc_I2)
    moreover have "Suc k \<le> Suc n" using 2 by simp
    ultimately show ?thesis using 2(2) by blast
  qed
qed

lemma set_cte_reachable:
  "depth \<le> 100 \<Longrightarrow> set (cte_reachable deps depth rows) =
     {y. \<exists>k\<le>100 - depth. \<exists>x\<in>set rows.
           (x, y) \<in> {(issue_id d, depends_on_id d) | d. d \<in> set deps} ^^ k}"
proof (induction deps depth rows rule: cte_reachable.induct)
  case (1 deps depth rows)
  let ?E = "{(issue_id d, depends_on_id d) | d. d \<in> set deps}"
  show ?case
  proof (cases "rows = []")
    case True
    then show ?thesis by (simp add: cte_reachable.simps)
  next
    case False
    show ?thesis
    proof (cases "depth < 100")
      case True
      then obtain n where n: "100 - depth = Suc n" "100 - Suc depth = n"
        by (metis Suc_diff_Suc diff_Suc_eq_diff_pred)
      have "set (cte_reachable deps (Suc depth) (cte_step deps rows)) =
        {y. \<exists>k\<le>n. \<exists>x\<in>?E `` set rows. (x, y) \<in> ?E ^^ k}"
        using 1(1)[OF False True] True n by (simp add: set_cte_step)
      then show ?thesis
        using False True n within_unfold[of n "set rows" ?E]
        by (subst cte_reachable.simps) simp
    next
      case False
      with 1(2) have d: "depth = 100" by simp
      show ?thesis using \<open>rows \<noteq> []\<close> d
        by (subst cte_reachable.simps) auto
    qed
  qed
qed

lemma has_cycle_iff:
  "has_cycle s a b = (a = b \<or> reachable_within 100 (edges s) b a)"
proof (cases "a = b")
  case True
  then show ?thesis by (simp add: has_cycle_def)
next
  case False
  then show ?thesis
    using set_cte_reachable[of 0 "tbl_dependencies s" "[b]"]
    by (simp add: has_cycle_def reachable_within_def edges_def)
qed

text \<open>
  Claim C5. \<open>has_cycle(a, b)\<close> is true when \<open>a = b\<close>, and otherwise exactly when \<open>a\<close> is
  reached from \<open>b\<close> by a walk of at most 100 outgoing dependency edges of any type. When it
  is true, \<open>add_dependency\<close> of the edge from \<open>a\<close> to \<open>b\<close> raises \<open>ValueError\<close> and leaves the
  store, its edges included, as it was.
\<close>

theorem has_cycle_oracle:
  "has_cycle s a b = (a = b \<or> reachable_within 100 (edges s) b a)
   \<and> (has_cycle s (issue_id dep) (depends_on_id dep) \<longrightarrow>
        add_dependency now dep who s
          = (Inl (ValueError (cycle_message (issue_id dep) (depends_on_id dep))), s))"
  using has_cycle_iff[of s a b] by (simp add: add_dependency_def)

theorem has_cycle_oracle_witness:
  "has_cycle (empty_store\<lparr>tbl_dependencies := [Dependency ''B'' ''A'' BLOCKS]\<rparr>) ''A'' ''B''
   \<and> reachable_within 100 (edges (empty_store\<lparr>tbl_dependencies := [Dependency ''B'' ''A'' BLOCKS]\<rparr>))
        ''B'' ''A''
   \<and> add_dependency 5 (Dependency ''A'' ''B'' BLOCKS) ''alice''
        (empty_store\<lparr>tbl_dependencies := [Dependency ''B'' ''A'' BLOCKS]\<rparr>)
      = (Inl (ValueError (cycle_message ''A'' ''B'')),
         empty_store\<lparr>tbl_dependencies := [Dependency ''B'' ''A'' BLOCKS]\<rparr>)"
proof -
  let ?s = "empty_store\<lparr>tbl_dependencies := [Dependency ''B'' ''A'' BLOCKS]\<rparr>"
  have c: "has_cycle ?s ''A'' ''B''"
    by (simp add: has_cycle_def empty_store_def Dependency_def cte_reachable.simps cte_step_def)
  from has_cycle_oracle[of ?s "''A''" "''B''" "Dependency ''A'' ''B'' BLOCKS" 5 "''alice''"] c
  show ?thesis by (simp add: Dependency_def)
qed


section \<open>Ready work\<close>

lemma has_open_blocker_iff:
  "has_open_blocker s r \<longleftrightarrow>
     (\<exists>d\<in>set (tbl_dependencies s). \<exists>blocker\<in>set (tbl_issues s).
             issue_id d = id' r \<and> affects_ready_work (dep_type d)
             \<and> depends_on_id d = id' blocker
             \<and> status blocker \<in> {OPEN, IN_PROGRESS, BLOCKED, DEFERRED, HOOKED})"
  unfolding has_open_blocker_def affects_ready_work_def list_ex_iff by auto

text \<open>
  Claim C2. \<open>get_ready_work\<close> compares \<open>defer_until\<close> with the current time, and orders by
  \<open>created_at\<close>, as texts. \<open>isoformat\<close> writes no fraction for a whole second, and \<open>Z\<close> is
  greater than the point that starts a fraction. In \<open>whole_second_store\<close> the three issues
  are ready as section 4.3 defines it ten microseconds after instant 0, and \<open>p-x\<close> is the
  oldest; the query leaves out \<open>p-d\<close>, whose \<open>defer_until\<close> has passed, and returns \<open>p-y\<close>
  before \<open>p-x\<close>.
\<close>

theorem ready_work_compares_text:
  assumes "isoformat L 0 = ''1970-01-01T00:00:00+00:00''"
    and "isoformat L 10 = ''1970-01-01T00:00:00.000010+00:00''"
  shows "map id' (get_ready_work L 10 whole_second_store) = [''p-y'', ''p-x'']
     \<and> list_all (spec_ready 10 whole_second_store) (tbl_issues whole_second_store)
     \<and> map (\<lambda>r. (id' r, priority r, created_at r)) (tbl_issues whole_second_store)
         = [(''p-x'', 2, 0), (''p-y'', 2, 10), (''p-d'', 2, 10)]"
proof -
  have t0: "format_timestamp L 0 = ''1970-01-01T00:00:00Z''"
    by (simp add: format_timestamp_def z_suffix_def assms suffix_to_prefix)
  have t10: "format_timestamp L 10 = ''1970-01-01T00:00:00.000010Z''"
    by (simp add: format_timestamp_def z_suffix_def assms suffix_to_prefix)
  have le: "\<not> format_timestamp L 0 \<le> format_timestamp L 10"
    unfolding t0 t10 by simp
  have a: "map id' (get_ready_work L 10 whole_second_store) = [''p-y'', ''p-x'']"
    using le
    by (simp add: get_ready_work_def whole_second_store_def empty_store_def Issue_def
        issue_to_row_def has_open_blocker_def row_to_issue_def)
  have b: "list_all (spec_ready 10 whole_second_store) (tbl_issues whole_second_store)"
    by (simp add: spec_ready_def whole_second_store_def empty_store_def Issue_def
        issue_to_row_def)
  have c: "map (\<lambda>r. (id' r, priority r, created_at r)) (tbl_issues whole_second_store)
         = [(''p-x'', 2, 0), (''p-y'', 2, 10), (''p-d'', 2, 10)]"
    by (simp add: whole_second_store_def empty_store_def Issue_def issue_to_row_def)
  from a b c show ?thesis by simp
qed

theorem ready_work_compares_text_witness:
  "\<forall>f j g.
     (let L = \<lparr>format_f = f,
                isoformat = (\<lambda>d. if d = 0 then ''1970-01-01T00:00:00+00:00''
                                  else ''1970-01-01T00:00:00.000010+00:00''),
                json_loads_ok = j, isdigit = g\<rparr>
      in isoformat L 0 = ''1970-01-01T00:00:00+00:00''
       \<and> isoformat L 10 = ''1970-01-01T00:00:00.000010+00:00''
       \<and> map id' (get_ready_work L 10 whole_second_store) = [''p-y'', ''p-x''])"
proof (intro allI)
  fix f :: "pyfloat \<Rightarrow> string" and j g :: "string \<Rightarrow> bool"
  let ?L = "\<lparr>format_f = f,
                isoformat = (\<lambda>d. if d = 0 then ''1970-01-01T00:00:00+00:00''
                                  else ''1970-01-01T00:00:00.000010+00:00''),
                json_loads_ok = j, isdigit = g\<rparr>"
  have 1: "isoformat ?L 0 = ''1970-01-01T00:00:00+00:00''" by simp
  have 2: "isoformat ?L 10 = ''1970-01-01T00:00:00.000010+00:00''" by simp
  from ready_work_compares_text[OF 1 2]
  have 3: "map id' (get_ready_work ?L 10 whole_second_store) = [''p-y'', ''p-x'']"
    by (rule conjunct1)
  show "let L = ?L
      in isoformat L 0 = ''1970-01-01T00:00:00+00:00''
       \<and> isoformat L 10 = ''1970-01-01T00:00:00.000010+00:00''
       \<and> map id' (get_ready_work L 10 whole_second_store) = [''p-y'', ''p-x'']"
    unfolding Let_def using 1 2 3 by (intro conjI)
qed

section \<open>Closed issues and their closing time\<close>

lemma keeps_do_all: "list_all (keeps P) ms \<Longrightarrow> keeps P (do_all ms)"
proof (induction ms)
  case Nil
  then show ?case by (simp add: keeps_def do_all.simps)
next
  case (Cons m ms)
  then have m: "keeps P m" and ms: "keeps P (do_all ms)" by simp_all
  show ?case unfolding keeps_def
  proof (intro allI impI)
    fix s assume "P s"
    then have "P (snd (m s))" using m by (simp add: keeps_def)
    then show "P (snd (do_all (m # ms) s))"
      using ms by (cases "m s") (auto simp: keeps_def do_all.simps split: sum.splits)
  qed
qed

lemma keeps_insert_issue: "keeps rows_ok (insert_issue r)"
  by (simp add: keeps_def insert_issue_def rows_ok_def)
lemma keeps_label: "keeps rows_ok (insert_or_ignore_label a b)"
  by (simp add: keeps_def insert_or_ignore_label_def rows_ok_def)
lemma keeps_dep: "keeps rows_ok (insert_or_ignore_dependency d)"
  by (simp add: keeps_def insert_or_ignore_dependency_def rows_ok_def)
lemma keeps_except: "keeps P m \<Longrightarrow> keeps P (except_integrity_pass m)"
  by (auto simp: keeps_def except_integrity_pass_def split: prod.splits sum.splits error.splits)
lemma keeps_discard: "keeps P m \<Longrightarrow> keeps P (discard m)"
  by (auto simp: keeps_def discard_def split: prod.splits sum.splits)
lemma keeps_comment: "keeps rows_ok (insert_comment a b c d)"
  by (simp add: keeps_def insert_comment_def rows_ok_def)
lemma keeps_event: "keeps rows_ok (record_event n a b c d e f)"
  by (simp add: keeps_def record_event_def rows_ok_def)
lemma keeps_dirty: "keeps rows_ok (mark_dirty n a)"
  by (simp add: keeps_def mark_dirty_def rows_ok_def)
lemma keeps_update_row: "keeps rows_ok (update_row iid f)"
  by (auto simp: keeps_def update_row_def rows_ok_def list_all_iff list_ex_iff)
lemma keeps_delete_dep: "keeps rows_ok (delete_dependency a b)"
  by (simp add: keeps_def delete_dependency_def rows_ok_def)
lemma keeps_delete_label: "keeps rows_ok (delete_label a b)"
  by (simp add: keeps_def delete_label_def rows_ok_def)

lemmas keeps_basic = keeps_insert_issue keeps_label keeps_dep keeps_comment keeps_event
  keeps_dirty keeps_update_row keeps_delete_dep keeps_delete_label

lemma keeps_create: "keeps rows_ok (create_issue L now i who)"
  unfolding keeps_def
proof (intro allI impI)
  fix s assume ok: "rows_ok s"
  let ?j = "i\<lparr>content_hash := compute_content_hash L i\<rparr>"
  have "keeps rows_ok (do_all
             ([insert_issue (issue_to_row ?j)]
              @ map (insert_or_ignore_label (id' ?j)) (labels ?j)
              @ map (\<lambda>d. except_integrity_pass (insert_or_ignore_dependency d)) (dependencies ?j)
              @ map (\<lambda>c. discard
                       (insert_comment
                          (if comment_issue_id c = [] then id' ?j else comment_issue_id c)
                          (author c) (comment_text c) (comment_created_at c)))
                  (comments ?j)
              @ [record_event now (id' ?j) EV_CREATED who None None None,
                 mark_dirty now (id' ?j)]))"
    by (rule keeps_do_all)
      (auto simp: list_all_iff keeps_basic intro!: keeps_except keeps_discard)
  then show "rows_ok (snd (create_issue L now i who s))"
    using ok unfolding keeps_def create_issue_def Let_def by simp
qed

lemma keeps_update: "keeps rows_ok (update_issue L now iid updates who)"
  unfolding keeps_def
proof (intro allI impI)
  fix s assume ok: "rows_ok s"
  have k: "keeps rows_ok (do_all [update_row iid f, ev, mark_dirty now iid])"
    if "keeps rows_ok ev" for f and ev :: "unit db"
    by (rule keeps_do_all) (simp add: keeps_basic that)
  show "rows_ok (snd (update_issue L now iid updates who s))"
  proof (cases "get_issue L s iid")
    case None
    then show ?thesis using ok by (simp add: update_issue_def)
  next
    case (Some fetched)
    show ?thesis
    proof (cases "assignee_is_none updates")
      case True
      then show ?thesis using ok Some by (simp add: update_issue_def)
    next
      case False
      then show ?thesis
        using ok Some k[OF keeps_event] unfolding keeps_def update_issue_def Let_def
        by (simp del: do_all.simps)
    qed
  qed
qed

lemma keeps_close: "keeps rows_ok (close_issue now iid reason who)"
  unfolding close_issue_def by (rule keeps_do_all) (simp add: keeps_basic)
lemma keeps_reopen: "keeps rows_ok (reopen_issue now iid who)"
  unfolding reopen_issue_def by (rule keeps_do_all) (simp add: keeps_basic)
lemma keeps_delete: "keeps rows_ok (delete_issue iid)"
  by (simp add: keeps_def delete_issue_def rows_ok_def list_all_iff)
lemma keeps_add_dependency: "keeps rows_ok (add_dependency now dep who)"
proof -
  have "keeps rows_ok (do_all [insert_or_ignore_dependency d, record_event now a b c x y z,
     mark_dirty now a, mark_dirty now e])" for d a b c x y z e
    by (rule keeps_do_all) (simp add: keeps_basic)
  then show ?thesis
    unfolding keeps_def add_dependency_def by (simp del: do_all.simps)
qed
lemma keeps_remove_dependency: "keeps rows_ok (remove_dependency now iid d who)"
  unfolding remove_dependency_def by (rule keeps_do_all) (simp add: keeps_basic)
lemma keeps_add_label: "keeps rows_ok (add_label now iid l who)"
  unfolding add_label_def by (rule keeps_do_all) (simp add: keeps_basic)
lemma keeps_remove_label: "keeps rows_ok (remove_label now iid l who)"
  unfolding remove_label_def by (rule keeps_do_all) (simp add: keeps_basic)
lemma keeps_add_comment: "keeps rows_ok (add_comment now iid auth body)"
  unfolding keeps_def
proof (intro allI impI)
  fix s assume ok: "rows_ok s"
  have k: "keeps rows_ok (do_all [record_event now iid EV_COMMENTED auth None (Some body) None,
                        mark_dirty now iid])"
    by (rule keeps_do_all) (simp add: keeps_basic)
  obtain r1 s1 where 1: "insert_comment iid auth body now s = (r1, s1)" by (cases "insert_comment iid auth body now s")
  then have ok1: "rows_ok s1" using ok keeps_comment[of iid auth body now] by (auto simp: keeps_def)
  obtain r2 s2 where 2: "do_all [record_event now iid EV_COMMENTED auth None (Some body) None,
                        mark_dirty now iid] s1 = (r2, s2)"
    by (cases "do_all [record_event now iid EV_COMMENTED auth None (Some body) None, mark_dirty now iid] s1")
  then have ok2: "rows_ok s2" using ok1 k by (auto simp: keeps_def)
  show "rows_ok (snd (add_comment now iid auth body s))"
    using 1 2 ok1 ok2 unfolding add_comment_def
    by (simp del: do_all.simps split: sum.splits)
qed

lemma keeps_next_child: "keeps rows_ok (next_child_number iid)"
  by (auto simp: keeps_def next_child_number_def rows_ok_def split: option.splits)

lemma reachable_rows_ok: "reachable L s \<Longrightarrow> rows_ok s"
proof (induction rule: reachable.induct)
  case r_init
  then show ?case by (simp add: rows_ok_def empty_store_def)
next
  case (r_clear_dirty s ids)
  then show ?case by (simp add: rows_ok_def clear_dirty_def)
qed (use keeps_create keeps_update keeps_close keeps_reopen keeps_delete keeps_add_dependency
      keeps_remove_dependency keeps_add_label keeps_remove_label keeps_add_comment keeps_next_child
     in \<open>simp_all add: keeps_def\<close>)

lemma validate_closed:
  "validate L i = None \<Longrightarrow>
     (status i = CLOSED \<longrightarrow> closed_at i \<noteq> None)
     \<and> (closed_at i \<noteq> None \<longrightarrow> status i = CLOSED \<or> status i = TOMBSTONE)"
  by (auto simp: validate_def split: if_splits)

lemma create_on_empty_store:
  "issues_check (issue_to_row (i\<lparr>content_hash := h\<rparr>)) \<Longrightarrow> json_serializable (validations i)
   \<Longrightarrow> labels i = [] \<Longrightarrow> dependencies i = [] \<Longrightarrow> comments i = []
   \<Longrightarrow> h = compute_content_hash L i
   \<Longrightarrow> create_issue L now i who empty_store
     = (Inr (), empty_store
         \<lparr>tbl_issues := [issue_to_row (i\<lparr>content_hash := h\<rparr>)],
          tbl_events := [\<lparr>event_id = 1, event_issue_id = id' i, event_type = EV_CREATED,
                          event_actor = who, old_value = None, new_value = None,
                          event_comment = None, event_created_at = now\<rparr>],
          tbl_dirty_issues := [(id' i, now)],
          seq_events := 1\<rparr>)"
  by (simp add: create_issue_def Let_def do_all.simps insert_issue_def record_event_def
      mark_dirty_def issue_ids_def empty_store_def issue_to_row_def)

text \<open>
  Claim C7, as amended. For an issue that \<open>validate\<close> accepts, and for every row of a
  store the operations reach: status closed implies that \<open>closed_at\<close> is set, and
  \<open>closed_at\<close> set implies that the status is closed or tombstone.
\<close>

theorem closed_iff_closed_at:
  "(validate L i = None \<longrightarrow>
      (status i = CLOSED \<longrightarrow> closed_at i \<noteq> None)
      \<and> (closed_at i \<noteq> None \<longrightarrow> status i = CLOSED \<or> status i = TOMBSTONE))
   \<and> (reachable L s \<longrightarrow>
        (\<forall>r\<in>set (tbl_issues s).
           (status r = CLOSED \<longrightarrow> closed_at r \<noteq> None)
           \<and> (closed_at r \<noteq> None \<longrightarrow> status r = CLOSED \<or> status r = TOMBSTONE)))"
proof (intro conjI impI ballI)
  assume "validate L i = None"
  then show "status i = CLOSED \<Longrightarrow> closed_at i \<noteq> None"
    and "closed_at i \<noteq> None \<Longrightarrow> status i = CLOSED \<or> status i = TOMBSTONE"
    using validate_closed[of L i] by blast+
next
  fix r assume "reachable L s" "r \<in> set (tbl_issues s)"
  then have c: "issues_check r"
    using reachable_rows_ok[of L s] by (simp add: rows_ok_def list_all_iff)
  then show "status r = CLOSED \<Longrightarrow> closed_at r \<noteq> None"
    and "closed_at r \<noteq> None \<Longrightarrow> status r = CLOSED \<or> status r = TOMBSTONE"
    by (auto simp: issues_check_def)
qed

theorem closed_iff_closed_at_witness:
  "\<forall>L. validate L (Issue 0\<lparr>id' := ''p-1'', title := ''A'', status := CLOSED, closed_at := Some 3\<rparr>)
         = None
     \<and> reachable L (snd (create_issue L 5
          (Issue 0\<lparr>id' := ''p-1'', title := ''A'', status := CLOSED, closed_at := Some 3\<rparr>)
          ''alice'' empty_store))
     \<and> map (\<lambda>r. (status r, closed_at r)) (tbl_issues (snd (create_issue L 5
          (Issue 0\<lparr>id' := ''p-1'', title := ''A'', status := CLOSED, closed_at := Some 3\<rparr>)
          ''alice'' empty_store))) = [(CLOSED, Some 3)]"
proof
  fix L
  let ?i = "Issue 0\<lparr>id' := ''p-1'', title := ''A'', status := CLOSED, closed_at := Some 3\<rparr>"
  let ?s = "snd (create_issue L 5 ?i ''alice'' empty_store)"
  have v: "validate L ?i = None"
    by (simp add: validate_def Issue_def py_len_def Status_is_valid_def IssueType_is_valid_def)
  have r: "reachable L ?s"
    by (rule r_create[OF r_init])
  have "create_issue L 5 ?i ''alice'' empty_store
     = (Inr (), empty_store
         \<lparr>tbl_issues := [issue_to_row (?i\<lparr>content_hash := compute_content_hash L ?i\<rparr>)],
          tbl_events := [\<lparr>event_id = 1, event_issue_id = id' ?i, event_type = EV_CREATED,
                          event_actor = ''alice'', old_value = None, new_value = None,
                          event_comment = None, event_created_at = 5\<rparr>],
          tbl_dirty_issues := [(id' ?i, 5)],
          seq_events := 1\<rparr>)"
    by (rule create_on_empty_store)
      (simp_all add: Issue_def issues_check_def issue_to_row_def sql_length_def py_len_def
        NUL_def json_serializable_def)
  then have m: "map (\<lambda>r. (status r, closed_at r)) (tbl_issues ?s) = [(CLOSED, Some 3)]"
    by (simp add: issue_to_row_def Issue_def)
  from closed_iff_closed_at[of L ?i ?s] v r m
  show "validate L ?i = None \<and> reachable L ?s
     \<and> map (\<lambda>r. (status r, closed_at r)) (tbl_issues ?s) = [(CLOSED, Some 3)]"
    by blast
qed

text \<open>
  The converse as the specification states it fails: a tombstone that carries a closing
  time is accepted by \<open>validate\<close> and by the CHECK of the schema.
\<close>

theorem tombstone_keeps_closed_at:
  "\<forall>L. validate L (Issue 0\<lparr>id' := ''p-1'', title := ''t'', status := TOMBSTONE,
            closed_at := Some 1, deleted_at := Some 2\<rparr>) = None
     \<and> map (\<lambda>r. (status r, closed_at r)) (tbl_issues (snd (create_issue L 5
          (Issue 0\<lparr>id' := ''p-1'', title := ''t'', status := TOMBSTONE,
            closed_at := Some 1, deleted_at := Some 2\<rparr>)
          ''alice'' empty_store))) = [(TOMBSTONE, Some 1)]"
proof
  fix L
  let ?i = "Issue 0\<lparr>id' := ''p-1'', title := ''t'', status := TOMBSTONE,
            closed_at := Some 1, deleted_at := Some 2\<rparr>"
  let ?s = "snd (create_issue L 5 ?i ''alice'' empty_store)"
  have v: "validate L ?i = None"
    by (simp add: validate_def Issue_def py_len_def Status_is_valid_def IssueType_is_valid_def)
  have "create_issue L 5 ?i ''alice'' empty_store
     = (Inr (), empty_store
         \<lparr>tbl_issues := [issue_to_row (?i\<lparr>content_hash := compute_content_hash L ?i\<rparr>)],
          tbl_events := [\<lparr>event_id = 1, event_issue_id = id' ?i, event_type = EV_CREATED,
                          event_actor = ''alice'', old_value = None, new_value = None,
                          event_comment = None, event_created_at = 5\<rparr>],
          tbl_dirty_issues := [(id' ?i, 5)],
          seq_events := 1\<rparr>)"
    by (rule create_on_empty_store)
      (simp_all add: Issue_def issues_check_def issue_to_row_def sql_length_def py_len_def
        NUL_def json_serializable_def)
  then have "map (\<lambda>r. (status r, closed_at r)) (tbl_issues ?s) = [(TOMBSTONE, Some 1)]"
    by (simp add: issue_to_row_def Issue_def)
  with v show "validate L ?i = None
     \<and> map (\<lambda>r. (status r, closed_at r)) (tbl_issues ?s) = [(TOMBSTONE, Some 1)]"
    by blast
qed


section \<open>Audit events and the dirty set\<close>

lemmas store_defs =
  create_issue_def Let_def json_serializable_def do_all.simps insert_issue_def issues_check_def
  sql_length_def py_len_def NUL_def issue_to_row_def insert_or_ignore_label_def
  insert_or_ignore_dependency_def insert_comment_def record_event_def mark_dirty_def
  issue_ids_def empty_store_def Issue_def Dependency_def update_issue_def get_issue_def
  row_to_issue_def get_labels_def get_dependency_records_def get_comments_def apply_updates_def
  assignee_is_none_def has_status_def update_row_def close_issue_def reopen_issue_def
  add_dependency_def has_cycle_def cte_reachable.simps cte_step_def remove_dependency_def
  delete_dependency_def add_label_def delete_label_def remove_label_def add_comment_def
  except_integrity_pass_def discard_def delete_issue_def get_dirty_issues_def

lemma set_get_dirty_issues: "set (get_dirty_issues L s) = fst ` set (tbl_dirty_issues s)"
  by (simp add: get_dirty_issues_def)

lemma do_all_Nil: "do_all [] s = (Inr (), s)"
  by (simp add: do_all.simps)

lemma do_all_Cons_Inr:
  "do_all (m # ms) s = (Inr u, s') \<Longrightarrow> \<exists>s1. m s = (Inr (), s1) \<and> do_all ms s1 = (Inr u, s')"
  by (auto simp: do_all.simps split: prod.splits sum.splits)

lemma do_all_append:
  "do_all (xs @ ys) s =
     (case do_all xs s of (Inl e, s') \<Rightarrow> (Inl e, s') | (Inr u, s') \<Rightarrow> do_all ys s')"
  by (induction xs arbitrary: s) (auto simp: do_all.simps split: prod.splits sum.splits)

lemma do_all_frame:
  assumes "\<And>m s. m \<in> set ms \<Longrightarrow> f (snd (m s)) = f s"
  shows "f (snd (do_all ms s)) = f s"
  using assms
proof (induction ms arbitrary: s)
  case Nil
  then show ?case by (simp add: do_all.simps)
next
  case (Cons m ms)
  have 1: "f (snd (m s)) = f s" using Cons.prems by simp
  have 2: "f (snd (do_all ms t)) = f t" for t using Cons by simp
  show ?case
  proof (cases "m s")
    case (Pair r s1)
    then show ?thesis using 1 2[of s1] by (cases r) (simp_all add: do_all.simps)
  qed
qed

lemma record_event_Inr:
  "record_event now iid ty who ov nv c s = (Inr u, s') \<Longrightarrow>
     event_recorded s s' iid ty \<and> tbl_dirty_issues s' = tbl_dirty_issues s"
  by (auto simp: record_event_def event_recorded_def split: if_splits)

lemma mark_dirty_Inr:
  "mark_dirty now iid s = (Inr u, s') \<Longrightarrow>
     tbl_events s' = tbl_events s \<and> iid \<in> fst ` set (tbl_dirty_issues s')
     \<and> fst ` set (tbl_dirty_issues s) \<subseteq> fst ` set (tbl_dirty_issues s')"
  by (force simp: mark_dirty_def split: if_splits)

lemma tail_one:
  assumes "do_all [record_event now iid ty who ov nv c, mark_dirty now iid] s = (Inr u, s')"
  shows "event_recorded s s' iid ty \<and> iid \<in> set (get_dirty_issues L s')"
proof -
  from do_all_Cons_Inr[OF assms] obtain s1 where
    1: "record_event now iid ty who ov nv c s = (Inr (), s1)"
    and r: "do_all [mark_dirty now iid] s1 = (Inr u, s')" by blast
  from do_all_Cons_Inr[OF r] obtain s2 where
    2: "mark_dirty now iid s1 = (Inr (), s2)" and "do_all [] s2 = (Inr u, s')" by blast
  then have "s2 = s'" by (simp add: do_all.simps)
  with record_event_Inr[OF 1] mark_dirty_Inr[OF 2] show ?thesis
    by (auto simp: event_recorded_def set_get_dirty_issues)
qed

lemma tail_two:
  assumes "do_all [record_event now iid ty who ov nv c, mark_dirty now iid, mark_dirty now other] s
             = (Inr u, s')"
  shows "event_recorded s s' iid ty \<and> iid \<in> set (get_dirty_issues L s')
     \<and> other \<in> set (get_dirty_issues L s')"
proof -
  from do_all_Cons_Inr[OF assms] obtain s1 where
    1: "record_event now iid ty who ov nv c s = (Inr (), s1)"
    and r: "do_all [mark_dirty now iid, mark_dirty now other] s1 = (Inr u, s')" by blast
  from do_all_Cons_Inr[OF r] obtain s2 where
    2: "mark_dirty now iid s1 = (Inr (), s2)"
    and r2: "do_all [mark_dirty now other] s2 = (Inr u, s')" by blast
  from do_all_Cons_Inr[OF r2] obtain s3 where
    3: "mark_dirty now other s2 = (Inr (), s3)" and "do_all [] s3 = (Inr u, s')" by blast
  then have "s3 = s'" by (simp add: do_all.simps)
  with record_event_Inr[OF 1] mark_dirty_Inr[OF 2] mark_dirty_Inr[OF 3] show ?thesis
    by (auto simp: event_recorded_def set_get_dirty_issues)
qed

lemma head_then_tail:
  assumes "do_all (m # ms) s = (Inr u, s')" and "\<And>t. tbl_events (snd (m t)) = tbl_events t"
  shows "\<exists>s1. do_all ms s1 = (Inr u, s') \<and> tbl_events s1 = tbl_events s"
proof -
  from do_all_Cons_Inr[OF assms(1)] obtain s1 where "m s = (Inr (), s1)" "do_all ms s1 = (Inr u, s')"
    by blast
  moreover have "tbl_events s1 = tbl_events s" using assms(2)[of s] \<open>m s = _\<close> by simp
  ultimately show ?thesis by blast
qed

lemma event_recorded_cong: "tbl_events s1 = tbl_events s \<Longrightarrow> event_recorded s1 s' i t \<Longrightarrow> event_recorded s s' i t"
  by (simp add: event_recorded_def)

lemma ev_update_row: "tbl_events (snd (update_row iid f t)) = tbl_events t"
  by (simp add: update_row_def)
lemma ev_insert_dep: "tbl_events (snd (insert_or_ignore_dependency d t)) = tbl_events t"
  by (simp add: insert_or_ignore_dependency_def)
lemma ev_delete_dep: "tbl_events (snd (delete_dependency a b t)) = tbl_events t"
  by (simp add: delete_dependency_def)
lemma ev_insert_label: "tbl_events (snd (insert_or_ignore_label a b t)) = tbl_events t"
  by (simp add: insert_or_ignore_label_def)
lemma ev_delete_label: "tbl_events (snd (delete_label a b t)) = tbl_events t"
  by (simp add: delete_label_def)
lemma ev_insert_issue: "tbl_events (snd (insert_issue r t)) = tbl_events t"
  by (simp add: insert_issue_def)
lemma ev_insert_comment: "tbl_events (snd (insert_comment a b c d t)) = tbl_events t"
  by (simp add: insert_comment_def)
lemma ev_except: "(\<And>t. tbl_events (snd (m t)) = tbl_events t) \<Longrightarrow> tbl_events (snd (except_integrity_pass m t)) = tbl_events t"
  by (auto simp: except_integrity_pass_def split: prod.splits sum.splits error.splits) (metis snd_conv)+
lemma ev_discard: "(\<And>t. tbl_events (snd (m t)) = tbl_events t) \<Longrightarrow> tbl_events (snd (discard m t)) = tbl_events t"
  by (auto simp: discard_def split: prod.splits sum.splits) (metis snd_conv)+

lemma close_ok:
  assumes "close_issue now iid reason who s = (Inr u, s')"
  shows "event_recorded s s' iid EV_CLOSED \<and> iid \<in> set (get_dirty_issues L s')"
proof -
  from head_then_tail[OF assms[unfolded close_issue_def] ev_update_row]
  obtain s1 where "do_all [record_event now iid EV_CLOSED who None None (Some reason), mark_dirty now iid] s1 = (Inr u, s')"
    "tbl_events s1 = tbl_events s" by blast
  then show ?thesis using tail_one event_recorded_cong by blast
qed

lemma reopen_ok:
  assumes "reopen_issue now iid who s = (Inr u, s')"
  shows "event_recorded s s' iid EV_REOPENED \<and> iid \<in> set (get_dirty_issues L s')"
proof -
  from head_then_tail[OF assms[unfolded reopen_issue_def] ev_update_row]
  obtain s1 where "do_all [record_event now iid EV_REOPENED who None None None, mark_dirty now iid] s1 = (Inr u, s')"
    "tbl_events s1 = tbl_events s" by blast
  then show ?thesis using tail_one event_recorded_cong by blast
qed

lemma add_label_ok:
  assumes "add_label now iid l who s = (Inr u, s')"
  shows "event_recorded s s' iid EV_LABEL_ADDED \<and> iid \<in> set (get_dirty_issues L s')"
proof -
  from head_then_tail[OF assms[unfolded add_label_def] ev_insert_label]
  obtain s1 where "do_all [record_event now iid EV_LABEL_ADDED who None (Some l) None, mark_dirty now iid] s1 = (Inr u, s')"
    "tbl_events s1 = tbl_events s" by blast
  then show ?thesis using tail_one event_recorded_cong by blast
qed

lemma remove_label_ok:
  assumes "remove_label now iid l who s = (Inr u, s')"
  shows "event_recorded s s' iid EV_LABEL_REMOVED \<and> iid \<in> set (get_dirty_issues L s')"
proof -
  from head_then_tail[OF assms[unfolded remove_label_def] ev_delete_label]
  obtain s1 where "do_all [record_event now iid EV_LABEL_REMOVED who (Some l) None None, mark_dirty now iid] s1 = (Inr u, s')"
    "tbl_events s1 = tbl_events s" by blast
  then show ?thesis using tail_one event_recorded_cong by blast
qed

lemma remove_dependency_ok:
  assumes "remove_dependency now iid d who s = (Inr u, s')"
  shows "event_recorded s s' iid EV_DEPENDENCY_REMOVED \<and> iid \<in> set (get_dirty_issues L s')
    \<and> d \<in> set (get_dirty_issues L s')"
proof -
  from head_then_tail[OF assms[unfolded remove_dependency_def] ev_delete_dep]
  obtain s1 where "do_all [record_event now iid EV_DEPENDENCY_REMOVED who (Some d) None None, mark_dirty now iid, mark_dirty now d] s1 = (Inr u, s')"
    "tbl_events s1 = tbl_events s" by blast
  then show ?thesis using tail_two event_recorded_cong by blast
qed

lemma add_dependency_ok:
  assumes "add_dependency now dep who s = (Inr u, s')"
  shows "event_recorded s s' (issue_id dep) EV_DEPENDENCY_ADDED
    \<and> issue_id dep \<in> set (get_dirty_issues L s') \<and> depends_on_id dep \<in> set (get_dirty_issues L s')"
proof -
  have nc: "\<not> has_cycle s (issue_id dep) (depends_on_id dep)"
    using assms by (auto simp: add_dependency_def)
  from head_then_tail[OF assms[unfolded add_dependency_def, simplified nc if_False] ev_insert_dep]
  obtain s1 where "do_all [record_event now (issue_id dep) EV_DEPENDENCY_ADDED who None (Some (depends_on_id dep)) None,
     mark_dirty now (issue_id dep), mark_dirty now (depends_on_id dep)] s1 = (Inr u, s')"
    "tbl_events s1 = tbl_events s" by blast
  then show ?thesis using tail_two event_recorded_cong by blast
qed

lemma update_ok:
  assumes "update_issue L now iid updates who s = (Inr u, s')"
  shows "event_recorded s s' iid (if has_status updates then EV_STATUS_CHANGED else EV_UPDATED)
     \<and> iid \<in> set (get_dirty_issues L s')"
proof -
  obtain fetched where f: "get_issue L s iid = Some fetched"
    using assms by (cases "get_issue L s iid") (auto simp: update_issue_def)
  have n: "\<not> assignee_is_none updates"
    using assms f by (auto simp: update_issue_def Let_def)
  let ?f = "\<lambda>r. (apply_updates updates r)\<lparr>updated_at := now,
       content_hash := compute_content_hash L (apply_updates updates fetched)\<rparr>"
  let ?ev = "if has_status updates then
                      record_event now iid EV_STATUS_CHANGED who
                        (Some (status (apply_updates updates fetched))) (Some (status (apply_updates updates fetched))) None
                    else record_event now iid EV_UPDATED who None None None"
  have "do_all [update_row iid ?f, ?ev, mark_dirty now iid] s = (Inr u, s')"
    using assms f n by (simp add: update_issue_def Let_def)
  from head_then_tail[OF this ev_update_row]
  obtain s1 where 1: "do_all [?ev, mark_dirty now iid] s1 = (Inr u, s')"
    "tbl_events s1 = tbl_events s" by blast
  show ?thesis
  proof (cases "has_status updates")
    case True
    with 1 show ?thesis using tail_one event_recorded_cong by simp
  next
    case False
    with 1 show ?thesis using tail_one event_recorded_cong by simp
  qed
qed

lemma add_comment_ok:
  assumes "add_comment now iid auth body s = (Inr n, s')"
  shows "event_recorded s s' iid EV_COMMENTED \<and> iid \<in> set (get_dirty_issues L s')"
proof -
  obtain r1 s1 where 1: "insert_comment iid auth body now s = (r1, s1)"
    by (cases "insert_comment iid auth body now s")
  have e: "tbl_events s1 = tbl_events s" using ev_insert_comment[of iid auth body now s] 1 by simp
  obtain r2 s2 where 2: "do_all [record_event now iid EV_COMMENTED auth None (Some body) None,
                        mark_dirty now iid] s1 = (r2, s2)"
    by (cases "do_all [record_event now iid EV_COMMENTED auth None (Some body) None, mark_dirty now iid] s1")
  from assms 1 2 have "r2 = Inr ()" "s2 = s'"
    by (auto simp: add_comment_def split: sum.splits)
  with 2 tail_one[of now iid EV_COMMENTED auth None "Some body" None s1 "()" s'] e
  show ?thesis using event_recorded_cong by blast
qed

lemma create_ok:
  assumes "create_issue L now i who s = (Inr u, s')"
  shows "event_recorded s s' (id' i) EV_CREATED \<and> id' i \<in> set (get_dirty_issues L s')"
proof -
  let ?j = "i\<lparr>content_hash := compute_content_hash L i\<rparr>"
  let ?pre = "[insert_issue (issue_to_row ?j)]
              @ map (insert_or_ignore_label (id' ?j)) (labels ?j)
              @ map (\<lambda>d. except_integrity_pass (insert_or_ignore_dependency d)) (dependencies ?j)
              @ map (\<lambda>c. discard
                       (insert_comment
                          (if comment_issue_id c = [] then id' ?j else comment_issue_id c)
                          (author c) (comment_text c) (comment_created_at c)))
                  (comments ?j)"
  let ?tail = "[record_event now (id' i) EV_CREATED who None None None, mark_dirty now (id' i)]"
  have js: "json_serializable (validations i)"
    using assms by (auto simp: create_issue_def Let_def split: if_splits)
  have eq: "do_all (?pre @ ?tail) s = (Inr u, s')"
    using assms js by (simp add: create_issue_def Let_def)
  obtain r1 s1 where p: "do_all ?pre s = (r1, s1)" by (cases "do_all ?pre s")
  have t: "do_all ?tail s1 = (Inr u, s')"
    using eq p unfolding do_all_append by (cases r1) simp_all
  have "tbl_events (snd (do_all ?pre s)) = tbl_events s"
    by (rule do_all_frame)
       (auto simp: ev_insert_issue ev_insert_label intro!: ev_except ev_discard ev_insert_dep ev_insert_comment)
  then have "tbl_events s1 = tbl_events s" using p by simp
  with tail_one[OF t] show ?thesis using event_recorded_cong by blast
qed

lemma delete_silent:
  "delete_issue iid s = (Inr u, s') \<Longrightarrow>
     tbl_events s' = filter (\<lambda>e. event_issue_id e \<noteq> iid) (tbl_events s)
     \<and> iid \<notin> set (get_dirty_issues L s')"
  by (auto simp: delete_issue_def set_get_dirty_issues)


text \<open>
  Claim C9, as amended. Each of \<open>create_issue\<close>, \<open>update_issue\<close>, \<open>close_issue\<close>,
  \<open>reopen_issue\<close>, \<open>add_dependency\<close>, \<open>remove_dependency\<close>, \<open>add_label\<close>, \<open>remove_label\<close> and
  \<open>add_comment\<close>, when it returns, has appended one audit event for the issue and left the
  issue in the dirty set, both endpoints for the two dependency operations. \<open>delete_issue\<close>
  appends no event and marks nothing: it removes the issue, and by cascade its events and
  its dirty mark.
\<close>

theorem mutations_record_and_mark:
  "(create_issue L now i who s = (Inr u, s') \<longrightarrow>
      event_recorded s s' (id' i) EV_CREATED \<and> id' i \<in> set (get_dirty_issues L s'))
   \<and> (update_issue L now iid updates who s = (Inr u, s') \<longrightarrow>
      event_recorded s s' iid (if has_status updates then EV_STATUS_CHANGED else EV_UPDATED)
      \<and> iid \<in> set (get_dirty_issues L s'))
   \<and> (close_issue now iid reason who s = (Inr u, s') \<longrightarrow>
      event_recorded s s' iid EV_CLOSED \<and> iid \<in> set (get_dirty_issues L s'))
   \<and> (reopen_issue now iid who s = (Inr u, s') \<longrightarrow>
      event_recorded s s' iid EV_REOPENED \<and> iid \<in> set (get_dirty_issues L s'))
   \<and> (add_dependency now dep who s = (Inr u, s') \<longrightarrow>
      event_recorded s s' (issue_id dep) EV_DEPENDENCY_ADDED
      \<and> issue_id dep \<in> set (get_dirty_issues L s')
      \<and> depends_on_id dep \<in> set (get_dirty_issues L s'))
   \<and> (remove_dependency now iid depends_on who s = (Inr u, s') \<longrightarrow>
      event_recorded s s' iid EV_DEPENDENCY_REMOVED
      \<and> iid \<in> set (get_dirty_issues L s') \<and> depends_on \<in> set (get_dirty_issues L s'))
   \<and> (add_label now iid label who s = (Inr u, s') \<longrightarrow>
      event_recorded s s' iid EV_LABEL_ADDED \<and> iid \<in> set (get_dirty_issues L s'))
   \<and> (remove_label now iid label who s = (Inr u, s') \<longrightarrow>
      event_recorded s s' iid EV_LABEL_REMOVED \<and> iid \<in> set (get_dirty_issues L s'))
   \<and> (add_comment now iid auth body s = (Inr n, s') \<longrightarrow>
      event_recorded s s' iid EV_COMMENTED \<and> iid \<in> set (get_dirty_issues L s'))
   \<and> (delete_issue iid s = (Inr u, s') \<longrightarrow>
      tbl_events s' = filter (\<lambda>e. event_issue_id e \<noteq> iid) (tbl_events s)
      \<and> iid \<notin> set (get_dirty_issues L s'))"
  using create_ok[of L now i who s u s'] update_ok[of L now iid updates who s u s']
    close_ok[of now iid reason who s u s'] reopen_ok[of now iid who s u s']
    add_dependency_ok[of now dep who s u s']
    remove_dependency_ok[of now iid depends_on who s u s']
    add_label_ok[of now iid label who s u s'] remove_label_ok[of now iid label who s u s']
    add_comment_ok[of now iid auth body s n s'] delete_silent[of iid s u s']
  by blast

theorem mutations_record_and_mark_witness:
  "\<forall>L.
     (let t = snd (create_issue L 30 (Issue 30\<lparr>id' := ''D'', title := ''D''\<rparr>) ''alice'' three_issue_store)
      in event_recorded three_issue_store t ''D'' EV_CREATED \<and> ''D'' \<in> set (get_dirty_issues L t))
   \<and> (let t = snd (update_issue L 30 ''A'' [UTitle ''New''] ''alice'' three_issue_store)
      in event_recorded three_issue_store t ''A'' EV_UPDATED \<and> ''A'' \<in> set (get_dirty_issues L t))
   \<and> (let t = snd (close_issue 30 ''A'' ''done'' ''alice'' three_issue_store)
      in event_recorded three_issue_store t ''A'' EV_CLOSED \<and> ''A'' \<in> set (get_dirty_issues L t))
   \<and> (let t = snd (reopen_issue 30 ''A'' ''alice'' three_issue_store)
      in event_recorded three_issue_store t ''A'' EV_REOPENED \<and> ''A'' \<in> set (get_dirty_issues L t))
   \<and> (let t = snd (add_dependency 30 (Dependency ''C'' ''A'' BLOCKS) ''alice'' three_issue_store)
      in event_recorded three_issue_store t ''C'' EV_DEPENDENCY_ADDED
         \<and> ''C'' \<in> set (get_dirty_issues L t) \<and> ''A'' \<in> set (get_dirty_issues L t))
   \<and> (let t = snd (remove_dependency 30 ''B'' ''A'' ''alice'' three_issue_store)
      in event_recorded three_issue_store t ''B'' EV_DEPENDENCY_REMOVED
         \<and> ''B'' \<in> set (get_dirty_issues L t) \<and> ''A'' \<in> set (get_dirty_issues L t))
   \<and> (let t = snd (add_label 30 ''A'' ''later'' ''alice'' three_issue_store)
      in event_recorded three_issue_store t ''A'' EV_LABEL_ADDED \<and> ''A'' \<in> set (get_dirty_issues L t))
   \<and> (let t = snd (remove_label 30 ''A'' ''urgent'' ''alice'' three_issue_store)
      in event_recorded three_issue_store t ''A'' EV_LABEL_REMOVED \<and> ''A'' \<in> set (get_dirty_issues L t))
   \<and> (let t = snd (add_comment 30 ''A'' ''alice'' ''hello'' three_issue_store)
      in event_recorded three_issue_store t ''A'' EV_COMMENTED \<and> ''A'' \<in> set (get_dirty_issues L t))"
proof
  fix L
  let ?s = three_issue_store
  have 1: "create_issue L 30 (Issue 30\<lparr>id' := ''D'', title := ''D''\<rparr>) ''alice'' ?s
     = (Inr (), snd (create_issue L 30 (Issue 30\<lparr>id' := ''D'', title := ''D''\<rparr>) ''alice'' ?s))"
    by (simp add: prod_eq_iff three_issue_store_def store_defs)
  have 2: "update_issue L 30 ''A'' [UTitle ''New''] ''alice'' ?s
     = (Inr (), snd (update_issue L 30 ''A'' [UTitle ''New''] ''alice'' ?s))"
    by (simp add: prod_eq_iff three_issue_store_def store_defs)
  have 3: "close_issue 30 ''A'' ''done'' ''alice'' ?s
     = (Inr (), snd (close_issue 30 ''A'' ''done'' ''alice'' ?s))"
    by (simp add: prod_eq_iff three_issue_store_def store_defs)
  have 4: "reopen_issue 30 ''A'' ''alice'' ?s = (Inr (), snd (reopen_issue 30 ''A'' ''alice'' ?s))"
    by (simp add: prod_eq_iff three_issue_store_def store_defs)
  have 5: "add_dependency 30 (Dependency ''C'' ''A'' BLOCKS) ''alice'' ?s
     = (Inr (), snd (add_dependency 30 (Dependency ''C'' ''A'' BLOCKS) ''alice'' ?s))"
    by (simp add: prod_eq_iff three_issue_store_def store_defs)
  have 6: "remove_dependency 30 ''B'' ''A'' ''alice'' ?s
     = (Inr (), snd (remove_dependency 30 ''B'' ''A'' ''alice'' ?s))"
    by (simp add: prod_eq_iff three_issue_store_def store_defs)
  have 7: "add_label 30 ''A'' ''later'' ''alice'' ?s
     = (Inr (), snd (add_label 30 ''A'' ''later'' ''alice'' ?s))"
    by (simp add: prod_eq_iff three_issue_store_def store_defs)
  have 8: "remove_label 30 ''A'' ''urgent'' ''alice'' ?s
     = (Inr (), snd (remove_label 30 ''A'' ''urgent'' ''alice'' ?s))"
    by (simp add: prod_eq_iff three_issue_store_def store_defs)
  have 9: "add_comment 30 ''A'' ''alice'' ''hello'' ?s
     = (Inr 1, snd (add_comment 30 ''A'' ''alice'' ''hello'' ?s))"
    by (simp add: prod_eq_iff three_issue_store_def store_defs)
  have d: "id' (Issue 30\<lparr>id' := ''D'', title := ''D''\<rparr>) = ''D''"
    "issue_id (Dependency ''C'' ''A'' BLOCKS) = ''C''"
    "depends_on_id (Dependency ''C'' ''A'' BLOCKS) = ''A''"
    "\<not> has_status [UTitle ''New'']"
    by (simp_all add: Issue_def Dependency_def has_status_def)
  show "(let t = snd (create_issue L 30 (Issue 30\<lparr>id' := ''D'', title := ''D''\<rparr>) ''alice'' three_issue_store)
      in event_recorded three_issue_store t ''D'' EV_CREATED \<and> ''D'' \<in> set (get_dirty_issues L t))
   \<and> (let t = snd (update_issue L 30 ''A'' [UTitle ''New''] ''alice'' three_issue_store)
      in event_recorded three_issue_store t ''A'' EV_UPDATED \<and> ''A'' \<in> set (get_dirty_issues L t))
   \<and> (let t = snd (close_issue 30 ''A'' ''done'' ''alice'' three_issue_store)
      in event_recorded three_issue_store t ''A'' EV_CLOSED \<and> ''A'' \<in> set (get_dirty_issues L t))
   \<and> (let t = snd (reopen_issue 30 ''A'' ''alice'' three_issue_store)
      in event_recorded three_issue_store t ''A'' EV_REOPENED \<and> ''A'' \<in> set (get_dirty_issues L t))
   \<and> (let t = snd (add_dependency 30 (Dependency ''C'' ''A'' BLOCKS) ''alice'' three_issue_store)
      in event_recorded three_issue_store t ''C'' EV_DEPENDENCY_ADDED
         \<and> ''C'' \<in> set (get_dirty_issues L t) \<and> ''A'' \<in> set (get_dirty_issues L t))
   \<and> (let t = snd (remove_dependency 30 ''B'' ''A'' ''alice'' three_issue_store)
      in event_recorded three_issue_store t ''B'' EV_DEPENDENCY_REMOVED
         \<and> ''B'' \<in> set (get_dirty_issues L t) \<and> ''A'' \<in> set (get_dirty_issues L t))
   \<and> (let t = snd (add_label 30 ''A'' ''later'' ''alice'' three_issue_store)
      in event_recorded three_issue_store t ''A'' EV_LABEL_ADDED \<and> ''A'' \<in> set (get_dirty_issues L t))
   \<and> (let t = snd (remove_label 30 ''A'' ''urgent'' ''alice'' three_issue_store)
      in event_recorded three_issue_store t ''A'' EV_LABEL_REMOVED \<and> ''A'' \<in> set (get_dirty_issues L t))
   \<and> (let t = snd (add_comment 30 ''A'' ''alice'' ''hello'' three_issue_store)
      in event_recorded three_issue_store t ''A'' EV_COMMENTED \<and> ''A'' \<in> set (get_dirty_issues L t))"
    unfolding Let_def
    using d
      mutations_record_and_mark[where s = ?s and L = L and now = 30 and who = "''alice''"
        and i = "Issue 30\<lparr>id' := ''D'', title := ''D''\<rparr>" and u = "()"
        and s' = "snd (create_issue L 30 (Issue 30\<lparr>id' := ''D'', title := ''D''\<rparr>) ''alice'' ?s)", THEN conjunct1, rule_format, OF 1]
      mutations_record_and_mark[where s = ?s and L = L and now = 30 and who = "''alice''"
        and iid = "''A''" and updates = "[UTitle ''New'']" and u = "()"
        and s' = "snd (update_issue L 30 ''A'' [UTitle ''New''] ''alice'' ?s)", THEN conjunct2, THEN conjunct1, rule_format, OF 2]
      mutations_record_and_mark[where s = ?s and now = 30 and who = "''alice''"
        and iid = "''A''" and reason = "''done''" and u = "()"
        and s' = "snd (close_issue 30 ''A'' ''done'' ''alice'' ?s)", THEN conjunct2, THEN conjunct2, THEN conjunct1, rule_format, OF 3]
      mutations_record_and_mark[where s = ?s and now = 30 and who = "''alice''"
        and iid = "''A''" and u = "()"
        and s' = "snd (reopen_issue 30 ''A'' ''alice'' ?s)", THEN conjunct2, THEN conjunct2, THEN conjunct2, THEN conjunct1, rule_format, OF 4]
      mutations_record_and_mark[where s = ?s and now = 30 and who = "''alice''"
        and dep = "Dependency ''C'' ''A'' BLOCKS" and u = "()"
        and s' = "snd (add_dependency 30 (Dependency ''C'' ''A'' BLOCKS) ''alice'' ?s)", THEN conjunct2, THEN conjunct2, THEN conjunct2, THEN conjunct2, THEN conjunct1, rule_format, OF 5]
      mutations_record_and_mark[where s = ?s and now = 30 and who = "''alice''"
        and iid = "''B''" and depends_on = "''A''" and u = "()"
        and s' = "snd (remove_dependency 30 ''B'' ''A'' ''alice'' ?s)", THEN conjunct2, THEN conjunct2, THEN conjunct2, THEN conjunct2, THEN conjunct2, THEN conjunct1, rule_format, OF 6]
      mutations_record_and_mark[where s = ?s and now = 30 and who = "''alice''"
        and iid = "''A''" and label = "''later''" and u = "()"
        and s' = "snd (add_label 30 ''A'' ''later'' ''alice'' ?s)", THEN conjunct2, THEN conjunct2, THEN conjunct2, THEN conjunct2, THEN conjunct2, THEN conjunct2, THEN conjunct1, rule_format, OF 7]
      mutations_record_and_mark[where s = ?s and now = 30 and who = "''alice''"
        and iid = "''A''" and label = "''urgent''" and u = "()"
        and s' = "snd (remove_label 30 ''A'' ''urgent'' ''alice'' ?s)", THEN conjunct2, THEN conjunct2, THEN conjunct2, THEN conjunct2, THEN conjunct2, THEN conjunct2, THEN conjunct2, THEN conjunct1, rule_format, OF 8]
      mutations_record_and_mark[where s = ?s and now = 30
        and iid = "''A''" and auth = "''alice''" and body = "''hello''" and n = 1
        and s' = "snd (add_comment 30 ''A'' ''alice'' ''hello'' ?s)", THEN conjunct2, THEN conjunct2, THEN conjunct2, THEN conjunct2, THEN conjunct2, THEN conjunct2, THEN conjunct2, THEN conjunct2, THEN conjunct1, rule_format, OF 9]
    by simp
qed

text \<open>
  The claim as stated fails for \<open>delete_issue\<close>: after it no event of the deleted issue is
  left and the dirty set is empty.
\<close>

theorem delete_issue_records_nothing:
  "\<forall>L. (let s = snd (create_issue L 5 (Issue 0\<lparr>id' := ''p-1'', title := ''A''\<rparr>) ''alice'' empty_store);
             t = snd (delete_issue ''p-1'' s)
         in get_dirty_issues L s = [''p-1''] \<and> map event_type (tbl_events s) = [EV_CREATED]
            \<and> fst (delete_issue ''p-1'' s) = Inr ()
            \<and> tbl_issues t = [] \<and> tbl_events t = [] \<and> get_dirty_issues L t = [])"
  by (simp add: store_defs)


section \<open>Metadata of a stored issue\<close>

lemma stream_a: "spec_content_bytes L (Issue 0\<lparr>id' := ''p-1'', title := ''T''\<rparr>) = [CHR ''T'', CHR 0x00, CHR 0x00, CHR 0x00, CHR 0x00, CHR 0x00, CHR 0x00, CHR ''o'', CHR ''p'', CHR ''e'', CHR ''n'', CHR 0x00, CHR ''2'', CHR 0x00, CHR ''t'', CHR ''a'', CHR ''s'', CHR ''k'', CHR 0x00, CHR 0x00, CHR 0x00, CHR 0x00, CHR 0x00, CHR 0x00, CHR 0x00, CHR 0x00, CHR 0x00, CHR 0x00, CHR 0x00, CHR 0x00, CHR 0x00, CHR ''0'', CHR 0x00, CHR 0x00, CHR 0x00, CHR 0x00, CHR 0x00, CHR 0x00, CHR 0x00, CHR 0x00, CHR 0x00, CHR 0x00, CHR 0x00, CHR 0x00, CHR 0x00]"
  by (simp add: spec_content_bytes_def Issue_def spec_str_def spec_int_def spec_str_optional_def
      spec_flag_def spec_float_optional_def spec_entity_ref_def py_str_def dec_nat.simps NUL_def)

lemma stream_b: "spec_content_bytes L (as_stored L (Issue 0\<lparr>id' := ''p-1'', title := ''T''\<rparr>)) = [CHR ''T'', CHR 0x00, CHR 0x00, CHR 0x00, CHR 0x00, CHR 0x00, CHR 0x00, CHR ''o'', CHR ''p'', CHR ''e'', CHR ''n'', CHR 0x00, CHR ''2'', CHR 0x00, CHR ''t'', CHR ''a'', CHR ''s'', CHR ''k'', CHR 0x00, CHR 0x00, CHR 0x00, CHR 0x00, CHR 0x00, CHR 0x00, CHR 0x00, CHR ''{'', CHR ''}'', CHR 0x00, CHR 0x00, CHR 0x00, CHR 0x00, CHR 0x00, CHR 0x00, CHR ''0'', CHR 0x00, CHR 0x00, CHR 0x00, CHR 0x00, CHR 0x00, CHR 0x00, CHR 0x00, CHR 0x00, CHR 0x00, CHR 0x00, CHR 0x00, CHR 0x00, CHR 0x00]"
  by (simp add: as_stored_def row_to_issue_def issue_to_row_def spec_content_bytes_def Issue_def spec_str_def spec_int_def spec_str_optional_def
      spec_flag_def spec_float_optional_def spec_entity_ref_def py_str_def dec_nat.simps NUL_def)

lemma digest_a: "sha256_hexdigest [CHR ''T'', CHR 0x00, CHR 0x00, CHR 0x00, CHR 0x00, CHR 0x00, CHR 0x00, CHR ''o'', CHR ''p'', CHR ''e'', CHR ''n'', CHR 0x00, CHR ''2'', CHR 0x00, CHR ''t'', CHR ''a'', CHR ''s'', CHR ''k'', CHR 0x00, CHR 0x00, CHR 0x00, CHR 0x00, CHR 0x00, CHR 0x00, CHR 0x00, CHR 0x00, CHR 0x00, CHR 0x00, CHR 0x00, CHR 0x00, CHR 0x00, CHR ''0'', CHR 0x00, CHR 0x00, CHR 0x00, CHR 0x00, CHR 0x00, CHR 0x00, CHR 0x00, CHR 0x00, CHR 0x00, CHR 0x00, CHR 0x00, CHR 0x00, CHR 0x00] = ''6a704efc63c6b60fb3e21cc69936df27733cf332f73f9cea0da1abdfb0885c5b''"
  by code_simp

lemma digest_b: "sha256_hexdigest [CHR ''T'', CHR 0x00, CHR 0x00, CHR 0x00, CHR 0x00, CHR 0x00, CHR 0x00, CHR ''o'', CHR ''p'', CHR ''e'', CHR ''n'', CHR 0x00, CHR ''2'', CHR 0x00, CHR ''t'', CHR ''a'', CHR ''s'', CHR ''k'', CHR 0x00, CHR 0x00, CHR 0x00, CHR 0x00, CHR 0x00, CHR 0x00, CHR 0x00, CHR ''{'', CHR ''}'', CHR 0x00, CHR 0x00, CHR 0x00, CHR 0x00, CHR 0x00, CHR 0x00, CHR ''0'', CHR 0x00, CHR 0x00, CHR 0x00, CHR 0x00, CHR 0x00, CHR 0x00, CHR 0x00, CHR 0x00, CHR 0x00, CHR 0x00, CHR 0x00, CHR 0x00, CHR 0x00] = ''ca9e6174e255efab196b6a7a199802c0db78e7b7bab0876b6c611fafc91cce09''"
  by code_simp

lemma is_insert_label: "tbl_issues (snd (insert_or_ignore_label a b t)) = tbl_issues t"
  by (simp add: insert_or_ignore_label_def)
lemma is_insert_dep: "tbl_issues (snd (insert_or_ignore_dependency d t)) = tbl_issues t"
  by (simp add: insert_or_ignore_dependency_def)
lemma is_insert_comment: "tbl_issues (snd (insert_comment a b c d t)) = tbl_issues t"
  by (simp add: insert_comment_def)
lemma is_record_event: "tbl_issues (snd (record_event n a b c d e f t)) = tbl_issues t"
  by (simp add: record_event_def)
lemma is_mark_dirty: "tbl_issues (snd (mark_dirty n a t)) = tbl_issues t"
  by (simp add: mark_dirty_def)
lemma is_except: "(\<And>t. tbl_issues (snd (m t)) = tbl_issues t) \<Longrightarrow> tbl_issues (snd (except_integrity_pass m t)) = tbl_issues t"
  by (auto simp: except_integrity_pass_def split: prod.splits sum.splits error.splits) (metis snd_conv)+
lemma is_discard: "(\<And>t. tbl_issues (snd (m t)) = tbl_issues t) \<Longrightarrow> tbl_issues (snd (discard m t)) = tbl_issues t"
  by (auto simp: discard_def split: prod.splits sum.splits) (metis snd_conv)+

lemma create_issue_rows:
  assumes "create_issue L now i who s = (Inr u, s')"
  shows "tbl_issues s' = tbl_issues s @ [issue_to_row (i\<lparr>content_hash := compute_content_hash L i\<rparr>)]
     \<and> id' i \<notin> set (issue_ids s)"
proof -
  let ?j = "i\<lparr>content_hash := compute_content_hash L i\<rparr>"
  let ?rest = "map (insert_or_ignore_label (id' ?j)) (labels ?j)
              @ map (\<lambda>d. except_integrity_pass (insert_or_ignore_dependency d)) (dependencies ?j)
              @ map (\<lambda>c. discard
                       (insert_comment
                          (if comment_issue_id c = [] then id' ?j else comment_issue_id c)
                          (author c) (comment_text c) (comment_created_at c)))
                  (comments ?j)
              @ [record_event now (id' ?j) EV_CREATED who None None None,
                 mark_dirty now (id' ?j)]"
  have js: "json_serializable (validations i)"
    using assms by (auto simp: create_issue_def Let_def split: if_splits)
  have eq: "do_all (insert_issue (issue_to_row ?j) # ?rest) s = (Inr u, s')"
    using assms js by (simp add: create_issue_def Let_def)
  from do_all_Cons_Inr[OF eq] obtain s1 where
    1: "insert_issue (issue_to_row ?j) s = (Inr (), s1)" and 2: "do_all ?rest s1 = (Inr u, s')"
    by blast
  from 1 have a: "tbl_issues s1 = tbl_issues s @ [issue_to_row ?j]" and b: "id' i \<notin> set (issue_ids s)"
    by (auto simp: insert_issue_def issue_to_row_def split: if_splits)
  have "tbl_issues (snd (do_all ?rest s1)) = tbl_issues s1"
    by (rule do_all_frame)
       (auto simp: is_insert_label is_record_event is_mark_dirty
          intro!: is_except is_discard is_insert_dep is_insert_comment)
  with 2 a b show ?thesis by simp
qed

lemma find_append_last:
  "\<forall>x\<in>set xs. \<not> P x \<Longrightarrow> P y \<Longrightarrow> find P (xs @ [y]) = Some y"
  by (induction xs) auto

lemma get_issue_after_create:
  assumes "create_issue L now i who s = (Inr u, s')"
  shows "get_issue L s' (id' i) = Some ((as_stored L i)
            \<lparr>labels := get_labels s' (id' i),
             dependencies := get_dependency_records s' (id' i),
             comments := get_comments L s' (id' i)\<rparr>)"
proof -
  let ?row = "issue_to_row (i\<lparr>content_hash := compute_content_hash L i\<rparr>)"
  from create_issue_rows[OF assms] have r: "tbl_issues s' = tbl_issues s @ [?row]"
    and n: "id' i \<notin> set (issue_ids s)" by simp_all
  have n': "\<forall>x\<in>set (tbl_issues s). \<not> id' x = id' i"
    using n unfolding issue_ids_def by (metis image_eqI set_map)
  have "id' ?row = id' i" by (simp add: issue_to_row_def)
  then have "find (\<lambda>r. id' r = id' i) (tbl_issues s') = Some ?row"
    unfolding r using n' by (intro find_append_last)
  then show ?thesis by (simp add: get_issue_def as_stored_def)
qed

lemma spec_bytes_relational:
  "spec_content_bytes L (r\<lparr>labels := a, dependencies := b, comments := c\<rparr>) = spec_content_bytes L r"
  by (simp add: spec_content_bytes_def)

lemma stored_bytes_differ:
  assumes "metadata i = []"
  shows "spec_content_bytes L (as_stored L i) \<noteq> spec_content_bytes L i"
proof (cases "status i = []")
  case True
  then show ?thesis
    by (simp add: spec_content_bytes_def as_stored_def row_to_issue_def issue_to_row_def
        spec_str_def NUL_def)
next
  case False
  show ?thesis
  proof (cases "issue_type i = []")
    case True
    with False show ?thesis
      by (simp add: spec_content_bytes_def as_stored_def row_to_issue_def issue_to_row_def
          spec_str_def NUL_def)
  next
    case False
    with \<open>status i \<noteq> []\<close> assms show ?thesis
      by (simp add: spec_content_bytes_def as_stored_def row_to_issue_def issue_to_row_def
          spec_str_def NUL_def)
  qed
qed

text \<open>
  Claim C10. An issue created with empty metadata is read back by \<open>get_issue\<close> with
  metadata \<open>{}\<close>; its stored content hash is the one computed at creation, over the empty
  metadata, and the hash recomputed on the issue read back is the SHA-256 digest of a
  different byte string, so the two hashes differ wherever SHA-256 does not collide on the
  two strings.
\<close>

theorem stored_metadata_changes_hash:
  assumes "metadata i = []" and "create_issue L now i who s = (Inr u, s')"
    and "no_collision (spec_content_bytes L (as_stored L i)) (spec_content_bytes L i)"
  shows "\<exists>r. get_issue L s' (id' i) = Some r \<and> metadata r = ''{}''
     \<and> content_hash r = compute_content_hash L i
     \<and> compute_content_hash L r \<noteq> content_hash r"
proof -
  let ?r = "(as_stored L i)
            \<lparr>labels := get_labels s' (id' i),
             dependencies := get_dependency_records s' (id' i),
             comments := get_comments L s' (id' i)\<rparr>"
  have g: "get_issue L s' (id' i) = Some ?r" by (rule get_issue_after_create[OF assms(2)])
  have m: "metadata ?r = ''{}''" using assms(1)
    by (simp add: as_stored_def row_to_issue_def issue_to_row_def)
  have h: "content_hash ?r = compute_content_hash L i"
    by (simp add: as_stored_def row_to_issue_def issue_to_row_def)
  have "sha256_hexdigest (spec_content_bytes L (as_stored L i)) \<noteq> sha256_hexdigest (spec_content_bytes L i)"
    using assms(3) stored_bytes_differ[OF assms(1), of L] by (simp add: no_collision_def)
  then have "compute_content_hash L ?r \<noteq> content_hash ?r"
    unfolding h by (simp add: compute_content_hash_spec spec_bytes_relational)
  with g m h show ?thesis by blast
qed


theorem stored_metadata_changes_hash_witness:
  "\<forall>L. \<exists>r. get_issue L (snd (create_issue L 5 (Issue 0\<lparr>id' := ''p-1'', title := ''T''\<rparr>) ''alice''
                 empty_store)) ''p-1'' = Some r
     \<and> metadata r = ''{}''
     \<and> content_hash r = ''6a704efc63c6b60fb3e21cc69936df27733cf332f73f9cea0da1abdfb0885c5b''
     \<and> compute_content_hash L r \<noteq> content_hash r"
proof
  fix L
  let ?i = "Issue 0\<lparr>id' := ''p-1'', title := ''T''\<rparr>"
  let ?s = "snd (create_issue L 5 ?i ''alice'' empty_store)"
  have m: "metadata ?i = []" and k: "id' ?i = ''p-1''" by (simp_all add: Issue_def)
  have c: "create_issue L 5 ?i ''alice'' empty_store = (Inr (), ?s)"
    by (simp add: prod_eq_iff store_defs)
  have n: "no_collision (spec_content_bytes L (as_stored L ?i)) (spec_content_bytes L ?i)"
    unfolding no_collision_def stream_a stream_b digest_a digest_b by simp
  have h: "compute_content_hash L ?i
      = ''6a704efc63c6b60fb3e21cc69936df27733cf332f73f9cea0da1abdfb0885c5b''"
    unfolding compute_content_hash_spec stream_a digest_a ..
  from stored_metadata_changes_hash[OF m c n] k h
  show "\<exists>r. get_issue L ?s ''p-1'' = Some r \<and> metadata r = ''{}''
     \<and> content_hash r = ''6a704efc63c6b60fb3e21cc69936df27733cf332f73f9cea0da1abdfb0885c5b''
     \<and> compute_content_hash L r \<noteq> content_hash r"
    by auto
qed


section \<open>The exporter\<close>

lemmas export_defs =
  flush_to_jsonl_def Let_def enrich_def search_issues_def get_issue_def row_to_issue_def
  get_labels_def get_dependency_records_def get_comments_def issue_to_row_def Issue_def
  empty_store_def export_store_def clear_dirty_def get_dirty_issues_def exported_def

lemma get_issue_id: "get_issue L s iid = Some r \<Longrightarrow> id' r = iid"
  by (auto simp: get_issue_def row_to_issue_def find_Some_iff split: option.splits)

lemma get_issue_exists: "iid \<in> set (issue_ids s) \<Longrightarrow> \<exists>r. get_issue L s iid = Some r"
proof -
  assume "iid \<in> set (issue_ids s)"
  then have "find (\<lambda>r. id' r = iid) (tbl_issues s) \<noteq> None"
    by (auto simp: issue_ids_def find_None_iff)
  then show ?thesis by (auto simp: get_issue_def split: option.splits)
qed

lemma set_search_all: "set (search_issues L True s) = row_to_issue ` set (tbl_issues s)"
  by (simp add: search_issues_def)

lemma search_ids_exist: "i \<in> set (search_issues L True s) \<Longrightarrow> id' i \<in> set (issue_ids s)"
  by (auto simp: set_search_all issue_ids_def row_to_issue_def)

lemma enrich_ids:
  "\<forall>i\<in>set xs. id' i \<in> set (issue_ids s) \<Longrightarrow>
     map id' (enrich L s xs) = map id' (filter (\<lambda>i. \<not> ephemeral i) xs)"
proof (induction xs)
  case Nil
  then show ?case by (simp add: enrich_def)
next
  case (Cons x xs)
  then obtain r where "get_issue L s (id' x) = Some r" using get_issue_exists by force
  moreover from this have "id' r = id' x" by (rule get_issue_id)
  ultimately show ?case using Cons by (simp add: enrich_def)
qed

lemma exported_ids:
  "map id' (exported L s) = map id' (filter (\<lambda>i. \<not> ephemeral i) (search_issues L True s))"
  unfolding exported_def by (rule enrich_ids) (simp add: search_ids_exist)

lemma exported_id_set:
  "set (map id' (exported L s)) = {id' r | r. r \<in> set (tbl_issues s) \<and> \<not> ephemeral r}"
proof -
  have k: "id' (row_to_issue r) = id' r" "ephemeral (row_to_issue r) = ephemeral r" for r
    by (simp_all add: row_to_issue_def)
  have "set (map id' (filter (\<lambda>i. \<not> ephemeral i) (search_issues L True s)))
      = id' ` {i \<in> row_to_issue ` set (tbl_issues s). \<not> ephemeral i}"
    by (simp add: set_search_all)
  also have "\<dots> = {id' r | r. r \<in> set (tbl_issues s) \<and> \<not> ephemeral r}"
  proof (intro set_eqI iffI)
    fix x assume "x \<in> id' ` {i \<in> row_to_issue ` set (tbl_issues s). \<not> ephemeral i}"
    then obtain r where "r \<in> set (tbl_issues s)" "\<not> ephemeral (row_to_issue r)"
      "x = id' (row_to_issue r)" by blast
    then show "x \<in> {id' r | r. r \<in> set (tbl_issues s) \<and> \<not> ephemeral r}"
      using k by auto
  next
    fix x assume "x \<in> {id' r | r. r \<in> set (tbl_issues s) \<and> \<not> ephemeral r}"
    then obtain r where r: "r \<in> set (tbl_issues s)" "\<not> ephemeral r" "x = id' r" by blast
    then have "row_to_issue r \<in> {i \<in> row_to_issue ` set (tbl_issues s). \<not> ephemeral i}"
      using k by simp
    then show "x \<in> id' ` {i \<in> row_to_issue ` set (tbl_issues s). \<not> ephemeral i}"
      using r(3) k(1)[of r] by (metis image_eqI)
  qed
  finally show ?thesis unfolding exported_ids .
qed

lemma write_lines_Inr:
  "write_lines dumps fault xs written k = (Inr n, out) \<Longrightarrow>
     \<exists>lines. map dumps xs = map Inr lines
       \<and> out = written @ concat (map (\<lambda>l. l @ [CHR 0x0A]) lines) \<and> n = k + length xs"
proof (induction xs arbitrary: written k)
  case Nil
  then show ?case by simp
next
  case (Cons x xs)
  then obtain line where l: "dumps x = Inr line"
    by (cases "dumps x") auto
  with Cons.prems have "write_lines dumps fault xs (written @ line @ [CHR 0x0A]) (k + 1) = (Inr n, out)"
    by (auto split: if_splits)
  from Cons.IH[OF this] obtain lines where
    "map dumps xs = map Inr lines" "out = (written @ line @ [CHR 0x0A]) @ concat (map (\<lambda>l. l @ [CHR 0x0A]) lines)"
    "n = k + 1 + length xs" by blast
  then show ?case using l by (intro exI[of _ "line # lines"]) simp
qed

lemma write_lines_ok:
  "map dumps xs = map Inr lines \<Longrightarrow> (\<forall>j. fault \<noteq> WriteFails j) \<Longrightarrow>
   write_lines dumps fault xs written k
     = (Inr (k + length xs), written @ concat (map (\<lambda>l. l @ [CHR 0x0A]) lines))"
proof (induction xs arbitrary: written k lines)
  case Nil
  then show ?case by simp
next
  case (Cons x xs)
  then obtain l ls where "lines = l # ls" "dumps x = Inr l" "map dumps xs = map Inr ls"
    by (cases lines) auto
  then show ?case using Cons.IH[of ls "written @ l @ [CHR 0x0A]" "k + 1"] Cons.prems(2) by simp
qed

lemma tmp_ne: "p @ ''.tmp'' \<noteq> p"
  by simp

lemma dirty_cleared: "get_dirty_issues L (clear_dirty (get_dirty_issues L s) s) = []"
proof (cases "get_dirty_issues L s = []")
  case True
  then show ?thesis by (simp add: clear_dirty_def)
next
  case False
  have "filter (\<lambda>(j, at). j \<notin> set (get_dirty_issues L s)) (tbl_dirty_issues s) = []"
    by (force simp: filter_empty_conv get_dirty_issues_def)
  then show ?thesis using False by (simp add: clear_dirty_def get_dirty_issues_def)
qed

lemma flush_ok:
  assumes "flush_to_jsonl L dumps fault p (s, fs) = (Inr n, s', fs')"
  shows "(\<exists>lines. map dumps (exported L s) = map Inr lines
          \<and> fs' p = Some (concat (map (\<lambda>l. l @ [CHR 0x0A]) lines)))
     \<and> n = length (exported L s)
     \<and> fs' (p @ ''.tmp'') = None
     \<and> (\<forall>q. q \<noteq> p \<and> q \<noteq> p @ ''.tmp'' \<longrightarrow> fs' q = fs q)
     \<and> get_dirty_issues L s' = []
     \<and> s' = clear_dirty (get_dirty_issues L s) s"
proof -
  obtain r w where w: "write_lines dumps fault (exported L s) [] 0 = (r, w)"
    by (cases "write_lines dumps fault (exported L s) [] 0")
  from assms w have f: "fault \<noteq> OpenFails" "fault \<noteq> ReplaceFails" and r: "r = Inr n"
    and s': "s' = clear_dirty (get_dirty_issues L s) s"
    and fs': "fs' = (fs(p @ ''.tmp'' := None))(p \<mapsto> w)"
    by (auto simp: flush_to_jsonl_def Let_def exported_def split: if_splits sum.splits)
  from write_lines_Inr[OF w[unfolded r]] obtain lines where
    "map dumps (exported L s) = map Inr lines" "w = concat (map (\<lambda>l. l @ [CHR 0x0A]) lines)"
    "n = length (exported L s)" by auto
  then show ?thesis using fs' s' dirty_cleared[of L s] by auto
qed

lemma flush_failed:
  assumes "flush_to_jsonl L dumps fault p (s, fs) = (Inl e, s', fs')"
  shows "fs' (p @ ''.tmp'') = None \<and> fs' p = fs p \<and> s' = s
     \<and> (\<forall>q. q \<noteq> p @ ''.tmp'' \<longrightarrow> fs' q = fs q)"
  using assms
  by (auto simp: flush_to_jsonl_def Let_def split: if_splits sum.splits prod.splits)

lemma flush_succeeds:
  assumes "map dumps (exported L s) = map Inr lines" and "fault = NoFault"
  shows "\<exists>fs'. flush_to_jsonl L dumps fault p (s, fs)
     = (Inr (length (exported L s)), clear_dirty (get_dirty_issues L s) s, fs')"
  using write_lines_ok[OF assms(1), of fault "[]" 0] assms(2)
  by (simp add: flush_to_jsonl_def Let_def exported_def)


text \<open>
  Claim C6. \<open>flush_to_jsonl\<close> writes one line for each non-ephemeral issue of the store,
  tombstones included, to the sibling file \<open>.tmp\<close> and renames it over the log. When it
  returns, the log holds exactly those lines, the temporary file is gone and the dirty set
  is empty. When it raises, the exception is the one that ended the write, the temporary
  file is gone, and the log and the store are as they were. It returns whenever the file
  system refuses nothing and every issue serialises.
\<close>

theorem export_atomic_rewrite:
  "(flush_to_jsonl L dumps fault p (s, fs) = (Inr n, s', fs') \<longrightarrow>
      (\<exists>lines. map dumps (exported L s) = map Inr lines
          \<and> fs' p = Some (concat (map (\<lambda>l. l @ [CHR 0x0A]) lines)))
      \<and> n = length (exported L s)
      \<and> fs' (p @ ''.tmp'') = None
      \<and> (\<forall>q. q \<noteq> p \<and> q \<noteq> p @ ''.tmp'' \<longrightarrow> fs' q = fs q)
      \<and> get_dirty_issues L s' = []
      \<and> s' = clear_dirty (get_dirty_issues L s) s)
   \<and> (flush_to_jsonl L dumps fault p (s, fs) = (Inl e, s', fs') \<longrightarrow>
      fs' (p @ ''.tmp'') = None \<and> fs' p = fs p \<and> s' = s
      \<and> (\<forall>q. q \<noteq> p @ ''.tmp'' \<longrightarrow> fs' q = fs q))
   \<and> map id' (exported L s) = map id' (filter (\<lambda>i. \<not> ephemeral i) (search_issues L True s))
   \<and> set (map id' (exported L s)) = {id' r | r. r \<in> set (tbl_issues s) \<and> \<not> ephemeral r}
   \<and> (fault = NoFault \<and> map dumps (exported L s) = map Inr lines \<longrightarrow>
        fst (flush_to_jsonl L dumps fault p (s, fs)) = Inr (length (exported L s)))"
proof (intro conjI impI)
  assume a: "flush_to_jsonl L dumps fault p (s, fs) = (Inr n, s', fs')"
  from flush_ok[OF a]
  show "\<exists>lines. map dumps (exported L s) = map Inr lines
          \<and> fs' p = Some (concat (map (\<lambda>l. l @ [CHR 0x0A]) lines))"
    "n = length (exported L s)" "fs' (p @ ''.tmp'') = None"
    "\<forall>q. q \<noteq> p \<and> q \<noteq> p @ ''.tmp'' \<longrightarrow> fs' q = fs q"
    "get_dirty_issues L s' = []" "s' = clear_dirty (get_dirty_issues L s) s"
    by blast+
next
  assume a: "flush_to_jsonl L dumps fault p (s, fs) = (Inl e, s', fs')"
  from flush_failed[OF a]
  show "fs' (p @ ''.tmp'') = None" "fs' p = fs p" "s' = s"
    "\<forall>q. q \<noteq> p @ ''.tmp'' \<longrightarrow> fs' q = fs q"
    by blast+
next
  show "map id' (exported L s) = map id' (filter (\<lambda>i. \<not> ephemeral i) (search_issues L True s))"
    by (rule exported_ids)
  show "set (map id' (exported L s)) = {id' r | r. r \<in> set (tbl_issues s) \<and> \<not> ephemeral r}"
    by (rule exported_id_set)
next
  assume "fault = NoFault \<and> map dumps (exported L s) = map Inr lines"
  then show "fst (flush_to_jsonl L dumps fault p (s, fs)) = Inr (length (exported L s))"
    using flush_succeeds[of dumps L s lines fault p fs] by auto
qed

theorem export_atomic_rewrite_witness:
  "\<forall>L. (let out = flush_to_jsonl L (\<lambda>i. Inr (id' i)) NoFault ''issues.jsonl''
                (export_store, [''issues.jsonl'' \<mapsto> ''old'']);
        s' = fst (snd out); fs' = snd (snd out)
    in fst out = Inr 2 \<and> fs' ''issues.jsonl'' = Some [CHR ''T'', CHR 0x0A, CHR ''A'', CHR 0x0A]
       \<and> fs' ''issues.jsonl.tmp'' = None \<and> get_dirty_issues L export_store = [''A'', ''T'']
       \<and> get_dirty_issues L s' = [])
   \<and> (let out = flush_to_jsonl L (\<lambda>i. Inr (id' i)) (WriteFails 1) ''issues.jsonl''
                (export_store, [''issues.jsonl'' \<mapsto> ''old'']);
        s' = fst (snd out); fs' = snd (snd out)
    in fst out = Inl (OSError ''write failed'') \<and> fs' ''issues.jsonl'' = Some ''old''
       \<and> fs' ''issues.jsonl.tmp'' = None \<and> s' = export_store)"
  (is "\<forall>L. ?P L")
proof
  fix L
  let ?d = "\<lambda>i. Inr (id' i) :: error + string"
  let ?fs = "[''issues.jsonl'' \<mapsto> ''old'']"
  let ?ok = "flush_to_jsonl L ?d NoFault ''issues.jsonl'' (export_store, ?fs)"
  let ?ko = "flush_to_jsonl L ?d (WriteFails 1) ''issues.jsonl'' (export_store, ?fs)"
  have 1: "?ok = (Inr 2, fst (snd ?ok), snd (snd ?ok))"
    by (simp add: prod_eq_iff export_defs)
  have 2: "?ko = (Inl (OSError ''write failed''), fst (snd ?ko), snd (snd ?ko))"
    by (simp add: prod_eq_iff export_defs)
  have 3: "snd (snd ?ok) ''issues.jsonl'' = Some [CHR ''T'', CHR 0x0A, CHR ''A'', CHR 0x0A]"
    by (simp add: export_defs)
  have 4: "get_dirty_issues L export_store = [''A'', ''T'']"
    by (simp add: export_defs)
  note ok = export_atomic_rewrite[of L ?d NoFault "''issues.jsonl''" export_store ?fs 2
      "fst (snd ?ok)" "snd (snd ?ok)", THEN conjunct1, rule_format, OF 1]
  have a1: "snd (snd ?ok) ''issues.jsonl.tmp'' = None"
    using ok by (elim conjE) simp
  have a2: "get_dirty_issues L (fst (snd ?ok)) = []"
    using ok by (elim conjE)
  note ko = export_atomic_rewrite[of L ?d "WriteFails 1" "''issues.jsonl''" export_store ?fs 0
      "fst (snd ?ko)" "snd (snd ?ko)" "OSError ''write failed''", THEN conjunct2, THEN conjunct1,
      rule_format, OF 2]
  have b1: "snd (snd ?ko) ''issues.jsonl.tmp'' = None"
    using ko by (elim conjE) simp
  have b2: "snd (snd ?ko) ''issues.jsonl'' = Some ''old''"
    using ko by (elim conjE) simp
  have b3: "fst (snd ?ko) = export_store"
    using ko by (elim conjE)
  have f1: "fst ?ok = Inr 2" by (subst 1) simp
  have f2: "fst ?ko = Inl (OSError ''write failed'')" by (subst 2) simp
  show "?P L"
    unfolding Let_def by (intro conjI f1 f2 3 4 a1 a2 b1 b2 b3)
qed

section \<open>The importer\<close>




lemma assignee_is_none_import: "assignee_is_none (import_updates i) = (assignee i = [])"
  by (simp add: assignee_is_none_def import_updates_def split: option.splits)

lemma has_status_import: "has_status (import_updates i)"
  by (simp add: has_status_def import_updates_def)










text \<open>
  With an empty incoming assignee the importer passes \<open>"assignee": None\<close>, and
  \<open>update_issue\<close> raises when it hashes the patched issue; the store is as it was.
\<close>

lemma import_one_empty_assignee:
  assumes "h = (if content_hash incoming = [] then compute_content_hash L incoming
                else content_hash incoming)"
    and "h \<notin> seen_hashes" and "id' incoming \<notin> seen_ids"
    and "db_by_id (id' incoming) = Some stored" and "status stored \<noteq> TOMBSTONE"
    and "db_by_hash h = None"
    and "updated_at stored < updated_at incoming" and "assignee incoming = []"
    and "id' incoming \<in> set (issue_ids s)"
  shows "import_one L now db_by_id db_by_hash incoming (result, seen_hashes, seen_ids) s
           = (Inl (AttributeError ''NoneType object has no attribute encode''), s)"
proof -
  obtain fetched where f: "get_issue L s (id' incoming) = Some fetched"
    using get_issue_exists[OF assms(9)] by blast
  have "update_issue L now (id' incoming) (import_updates incoming) ''import'' s
          = (Inl (AttributeError ''NoneType object has no attribute encode''), s)"
    using f assms(8) by (simp add: update_issue_def Let_def assignee_is_none_import)
  then show ?thesis
    using assms(1-7) by (simp add: import_one_def Let_def)
qed























































end
